theory Spec2Isabelle
  imports Main "HOL-Library.Word"
begin

unbundle bit_operations_syntax

section \<open>Expression compiler (pkg/proc/evalop/evalcompile.go)\<close>

subsection \<open>Syntax trees, debug-info types, constants\<close>

text \<open>
  The tokens of go/token that the compiler looks at: literal kinds, the operators it
  treats specially, and the remaining operators (\<open>INT\<close>, \<open>AND\<close>, \<open>OR\<close>, \<open>XOR\<close> and \<open>NOT\<close> with a
  suffix, as the names are taken).
\<close>

datatype token =
    INT_tok | FLOAT | IMAG | CHAR | STRING
  | ADD | SUB | MUL | QUO | REM
  | AND_tok | OR_tok | XOR_tok | SHL | SHR | AND_NOT
  | LAND | LOR | ARROW | INC | DEC
  | EQL | LSS | GTR | NOT_tok | NEQ | LEQ | GEQ

text \<open>
  The expression nodes of go/ast. A field that may be nil in Go is an option. The type
  literals carry their source text only: the compiler never looks inside them.
\<close>

datatype expr =
    BadExpr
  | Ident string
  | BasicLit token string
  | FuncLit string
  | CompositeLit "expr option" "expr list"
  | ParenExpr expr
  | SelectorExpr expr string
  | IndexExpr expr expr
  | IndexListExpr expr "expr list"
  | SliceExpr expr "expr option" "expr option" bool
  | TypeAssertExpr expr "expr option"
  | CallExpr expr "expr list"
  | StarExpr expr
  | UnaryExpr token expr
  | BinaryExpr expr token expr
  | KeyValueExpr expr expr
  | ArrayType string
  | StructType string
  | FuncType string
  | InterfaceType string
  | MapType string
  | ChanType string

text \<open>The debug-info types of godwarf, as far as the compiler distinguishes them.\<close>

datatype godwarfType =
    BasicTypeD string
  | FakeBasicType string int
  | FakeSliceType godwarfType
  | StructTypeD string "string list"
  | SliceTypeD godwarfType
  | MapTypeD godwarfType godwarfType
  | ArrayTypeD godwarfType
  | PtrType godwarfType
  | TypedefType string godwarfType
  | QualType godwarfType

text \<open>The values of go/constant that the compiler builds.\<close>

datatype constValue =
    MakeFromLiteral string token
  | MakeBool bool
  | MakeInt64 int

subsection \<open>Operations\<close>

datatype jumpCond =
    JumpIfFalse | JumpIfTrue | JumpIfAllocStringChecksFail | JumpAlways | JumpIfPinningDone

text \<open>
  One constructor for each opcode that the compiler emits, with the fields the compiler
  fills in, in the order of the struct literals of the source.
  \<open>Jump When Target Pop Node\<close>; \<open>CallInjectionStart id HasFunc Node\<close>;
  \<open>CallInjectionCopyArg id ArgNum ArgExpr\<close>; \<open>CallInjectionComplete id DoPinning\<close>;
  \<open>CallInjectionStartSpecial id FnName ArgAst\<close>; \<open>SetValue lhe Rhe\<close>;
  \<open>PushLocal Name Frame\<close>; \<open>Reslice HasHigh Node\<close>.
\<close>

datatype Op =
    PushCurg
  | PushFrameoff
  | PushThreadID
  | PushRegister int string
  | PushConst constValue
  | PushLocal string int
  | PushNil
  | PushPackageVar string string
  | PushLen
  | PushDebugPinner
  | PushPinAddress
  | PushRuntimeType godwarfType
  | Select string
  | TypeAssert "godwarfType option" expr
  | PointerDeref expr
  | Unary expr
  | AddrOf expr
  | TypeCast godwarfType "expr option"
  | Reslice bool expr
  | Index expr
  | Jump jumpCond int bool "expr option"
  | Binary expr
  | BoolToConst
  | Pop
  | Dup
  | Roll int
  | BuiltinCall string "expr list"
  | CallInjectionStart int bool expr
  | CallInjectionSetTarget int
  | CallInjectionCopyArg int int "expr option"
  | CallInjectionComplete int bool
  | CallInjectionComplete2 int
  | CallInjectionStartSpecial int string "expr option list"
  | ConvertAllocToString
  | SetValue "expr option" expr
  | SetDebugPinner

subsection \<open>Errors\<close>

text \<open>
  Every error value of the compiler is a constructor. The messages built with
  fmt.Errorf keep their arguments and drop the program listing. An error that comes
  from outside the package (the parser, strconv, the type lookup) is \<open>ExternalError\<close>,
  except for the two the code compares against. \<open>ScannerErrorList\<close> is the parser's list of
  (message, offset) entries: its first entry and the rest. A run-time panic of Go is \<open>Panic\<close>.
\<close>

datatype error =
    ErrFuncCallNotAllowed
  | errFuncCallNotAllowedLitAlloc
  | ErrTypeNotFound
  | ExternalError string
  | ScannerErrorList "string \<times> nat" "(string \<times> nat) list"
  | OperatorNotSupported token
  | ThreeIndexSlice
  | NotImplemented expr
  | ExpectedIntegerForFrame expr
  | CouldNotFindSymbol string
  | CouldNotEvaluate string error
  | ErrorEvaluatingArgument string int string error
  | DepthTooSmall int int int
  | DepthJumpTarget int int int
  | PinningBeforeDebugPinner int
  | DepthAtEnd int int
  | Panic string

subsection \<open>The depth check\<close>

text \<open>
  \<open>op.depthCheck()\<close> is a method of each opcode, declared with the opcodes in a file
  that is not among the sources. It is the parameter \<open>ar\<close> below: \<open>ar op\<close> is the pair
  \<open>(npop, npush)\<close>.

  \<open>checkAndSet\<close> is the closure of \<open>depthCheck\<close>; the captured variables \<open>depth\<close> and
  \<open>err\<close> are passed and returned. Indexing \<open>depth\<close> out of range panics.
\<close>

definition checkAndSet :: "int \<Rightarrow> int \<Rightarrow> int list \<times> error option \<Rightarrow> error + (int list \<times> error option)" where
  "checkAndSet j d st =
     (let depth = fst st; err = snd st in
      if j < 0 \<or> int (length depth) \<le> j then Inl (Panic ''index out of range'')
      else
        let depth1 = (if depth ! nat j < 0 then depth[nat j := d] else depth) in
        if d \<noteq> depth1 ! nat j
        then Inr (depth1, Some (DepthJumpTarget j d (depth1 ! nat j)))
        else Inr (depth1, err))"

text \<open>
  The type switch on the instruction inside the loop, at index \<open>i\<close>, with \<open>d\<close> the depth
  after the instruction: a jump also checks its target, a special call start sets
  \<open>debugPinnerSeen\<close>, a pinning call completion before any special call start sets \<open>err\<close>.
\<close>

definition depthCheckSwitch ::
  "Op \<Rightarrow> nat \<Rightarrow> int \<Rightarrow> bool \<Rightarrow> int list \<times> error option
     \<Rightarrow> error + ((int list \<times> error option) \<times> bool)" where
  "depthCheckSwitch op i d debugPinnerSeen st =
     (case op of
        Jump when target pop node \<Rightarrow>
          (case checkAndSet target d st of
             Inl p \<Rightarrow> Inl p
           | Inr st1 \<Rightarrow> Inr (st1, debugPinnerSeen))
      | CallInjectionStartSpecial cid fnname argAst \<Rightarrow> Inr (st, True)
      | CallInjectionComplete cid doPinning \<Rightarrow>
          (if doPinning \<and> \<not> debugPinnerSeen
           then Inr ((fst st, Some (PinningBeforeDebugPinner (int i))), debugPinnerSeen)
           else Inr (st, debugPinnerSeen))
      | _ \<Rightarrow> Inr (st, debugPinnerSeen))"

text \<open>
  One iteration of the loop over \<open>ctx.ops\<close>, at index \<open>i\<close> with instruction \<open>op\<close>. The state is
  the depth table and \<open>debugPinnerSeen\<close>; \<open>err\<close> is nil at the start of every iteration,
  because the loop returns as soon as it is set.
\<close>

definition depthCheckStep ::
  "(Op \<Rightarrow> int \<times> int) \<Rightarrow> nat \<Rightarrow> Op \<Rightarrow> int list \<times> bool \<Rightarrow> error + (int list \<times> bool)" where
  "depthCheckStep ar i op st =
     (let depth = fst st; debugPinnerSeen = snd st;
          npop = fst (ar op); npush = snd (ar op) in
      if depth ! i < npop then Inl (DepthTooSmall (int i) npop (depth ! i))
      else
        let d = depth ! i - npop + npush in
        case checkAndSet (int i + 1) d (depth, None) of
          Inl p \<Rightarrow> Inl p
        | Inr st1 \<Rightarrow>
            (case depthCheckSwitch op i d debugPinnerSeen st1 of
               Inl p \<Rightarrow> Inl p
             | Inr (st2, seen) \<Rightarrow>
                 (case snd st2 of
                    Some e \<Rightarrow> Inl e
                  | None \<Rightarrow> Inr (fst st2, seen))))"

text \<open>The loop \<open>for i, op := range ctx.ops\<close>, from index \<open>i\<close> over the remaining instructions.\<close>

fun depthCheckLoop ::
  "(Op \<Rightarrow> int \<times> int) \<Rightarrow> nat \<Rightarrow> Op list \<Rightarrow> int list \<times> bool \<Rightarrow> error + (int list \<times> bool)" where
  "depthCheckLoop ar i [] st = Inr st"
| "depthCheckLoop ar i (op # rest) st =
     (case depthCheckStep ar i op st of
        Inl e \<Rightarrow> Inl e
      | Inr st1 \<Rightarrow> depthCheckLoop ar (Suc i) rest st1)"

text \<open>The table before the loop: \<open>-1\<close> everywhere, \<open>0\<close> at index 0.\<close>

definition initDepth :: "Op list \<Rightarrow> int list" where
  "initDepth ops = (replicate (length ops + 1) (- 1)) [0 := 0]"

text \<open>The depth table that the loop leaves, when it does not fail.\<close>

definition depthTable :: "(Op \<Rightarrow> int \<times> int) \<Rightarrow> Op list \<Rightarrow> error + int list" where
  "depthTable ar ops =
     (case depthCheckLoop ar 0 ops (initDepth ops, False) of
        Inl e \<Rightarrow> Inl e
      | Inr st \<Rightarrow> Inr (fst st))"

text \<open>\<open>depthCheck\<close>: \<open>None\<close> is the nil error.\<close>

definition depthCheck :: "(Op \<Rightarrow> int \<times> int) \<Rightarrow> Op list \<Rightarrow> int \<Rightarrow> error option" where
  "depthCheck ar ops endDepth =
     (case depthTable ar ops of
        Inl e \<Rightarrow> Some e
      | Inr depth \<Rightarrow>
          if depth ! length ops \<noteq> endDepth
          then Some (DepthAtEnd (depth ! length ops) endDepth)
          else None)"


subsection \<open>The compile context and the interfaces it uses\<close>

type_synonym Flags = "8 word"

definition CanSet :: Flags where "CanSet = 1"
definition HasDebugPinner :: Flags where "HasDebugPinner = 2"

definition DebugPinnerFunctionName :: string where
  "DebugPinnerFunctionName = ''runtime.debugPinner''"

record compileCtx =
  ops :: "Op list"
  allowCalls :: bool
  curCall :: int
  flags :: Flags
  firstCall :: bool

text \<open>
  The interface \<open>evalLookup\<close>. A method that returns a value and an error returns a sum;
  \<open>LookupRegisterName\<close> returns the register number when its second result is true.
\<close>

record evalLookup =
  FindTypeExpr :: "expr option \<Rightarrow> error + godwarfType"
  HasLocal :: "string \<Rightarrow> bool"
  HasGlobal :: "string \<Rightarrow> string \<Rightarrow> bool"
  HasBuiltin :: "string \<Rightarrow> bool"
  LookupRegisterName :: "string \<Rightarrow> int option"

text \<open>
  The functions of the Go library that the compiler calls: \<open>parser.ParseExpr\<close>,
  \<open>strconv.ParseInt\<close> (base 10, 8 bits), \<open>strconv.Unquote\<close> and the printer behind
  \<open>ExprToString\<close>. They are parameters of the model.
\<close>

record golib =
  ParseExpr :: "string \<Rightarrow> error + expr"
  ParseInt :: "string \<Rightarrow> error + int"
  Unquote :: "string \<Rightarrow> error + string"
  ExprToString :: "expr \<Rightarrow> string"

definition pushOp :: "Op \<Rightarrow> compileCtx \<Rightarrow> compileCtx" where
  "pushOp op ctx = ctx\<lparr>ops := ops ctx @ [op]\<rparr>"

text \<open>
  A \<open>*Jump\<close> is appended once and its \<open>Target\<close> is assigned later through the pointer.
  The pointer is the index at which the jump was appended: the assignment is the update of
  the list at that index.
\<close>

definition setTarget :: "int \<Rightarrow> Op \<Rightarrow> Op" where
  "setTarget t op = (case op of Jump when target pop node \<Rightarrow> Jump when t pop node | _ \<Rightarrow> op)"

definition setJumpTarget :: "nat \<Rightarrow> int \<Rightarrow> compileCtx \<Rightarrow> compileCtx" where
  "setJumpTarget idx t ctx = ctx\<lparr>ops := (ops ctx)[idx := setTarget t (ops ctx ! idx)]\<rparr>"

text \<open>The loop over \<open>args\<close> of \<open>compileSpecialCall\<close>; a nil operand is \<open>None\<close>.\<close>

fun pushSpecialArgs :: "int \<Rightarrow> int \<Rightarrow> Op option list \<Rightarrow> compileCtx \<Rightarrow> compileCtx" where
  "pushSpecialArgs cid i [] ctx = ctx"
| "pushSpecialArgs cid i (a # rest) ctx =
     pushSpecialArgs cid (i + 1) rest
       (pushOp (CallInjectionCopyArg cid i None)
          (case a of None \<Rightarrow> ctx | Some op \<Rightarrow> pushOp op ctx))"

function compileSpecialCall ::
    "string \<Rightarrow> expr option list \<Rightarrow> Op option list \<Rightarrow> bool \<Rightarrow> compileCtx \<Rightarrow> compileCtx"
  and compileGetDebugPinner :: "compileCtx \<Rightarrow> compileCtx"
  and compilePinningLoop :: "int \<Rightarrow> compileCtx \<Rightarrow> compileCtx" where
  "compileSpecialCall fnname argAst args doPinning ctx =
     (let ctx1 = (if doPinning then compileGetDebugPinner ctx else ctx);
          cid = curCall ctx1;
          ctx2 = ctx1\<lparr>curCall := cid + 1\<rparr>;
          ctx3 = pushOp (CallInjectionStartSpecial cid fnname argAst) ctx2;
          ctx4 = pushOp (CallInjectionSetTarget cid) ctx3;
          ctx5 = pushSpecialArgs cid 0 args ctx4;
          doPinning1 = (doPinning \<and> flags ctx5 AND HasDebugPinner \<noteq> 0);
          ctx6 = pushOp (CallInjectionComplete cid doPinning1) ctx5
      in if doPinning1 then compilePinningLoop cid ctx6 else ctx6)"
| "compileGetDebugPinner ctx =
     (if firstCall ctx \<and> flags ctx AND HasDebugPinner \<noteq> 0
      then (pushOp SetDebugPinner
              (compileSpecialCall DebugPinnerFunctionName [] [] False ctx))\<lparr>firstCall := False\<rparr>
      else ctx)"
| "compilePinningLoop cid ctx =
     (let loopStart = length (ops ctx);
          ctx1 = pushOp (Jump JumpIfPinningDone 0 False None) ctx;
          ctx2 = pushOp PushPinAddress ctx1;
          ctx3 = compileSpecialCall ''runtime.(*Pinner).Pin''
                   [Some (Ident ''debugPinner''), Some (Ident ''pinAddress'')]
                   [Some PushDebugPinner, None] False ctx2;
          ctx4 = pushOp Pop ctx3;
          ctx5 = pushOp (Jump JumpAlways (int loopStart) False None) ctx4;
          ctx6 = setJumpTarget loopStart (int (length (ops ctx5))) ctx5
      in pushOp (CallInjectionComplete2 cid) ctx6)"
  by pat_completeness auto
termination
  by (relation "measure (\<lambda>x. case x of
          Inl (fnname, argAst, args, doPinning, ctx) \<Rightarrow> (if doPinning then 2 else 0)
        | Inr (Inl ctx) \<Rightarrow> 1
        | Inr (Inr (cid, ctx)) \<Rightarrow> 1)") auto


subsection \<open>Helpers without recursion into the compiler\<close>

fun removeParen :: "expr \<Rightarrow> expr" where
  "removeParen (ParenExpr x) = removeParen x"
| "removeParen n = n"

text \<open>
  The loop at the head of \<open>compileTypeCastOrFuncCall\<close>: remove the parentheses, and
  while the result is a \<open>StarExpr\<close> go on with its operand.
\<close>

fun removeParenStar :: "expr \<Rightarrow> expr" where
  "removeParenStar (ParenExpr x) = removeParenStar x"
| "removeParenStar (StarExpr x) = removeParenStar x"
| "removeParenStar n = n"

fun isStringLiteral :: "expr \<Rightarrow> bool" where
  "isStringLiteral (BasicLit kind v) = (kind = STRING)"
| "isStringLiteral (BinaryExpr x op y) =
     (if op = ADD then isStringLiteral x \<and> isStringLiteral y else False)"
| "isStringLiteral (ParenExpr x) = isStringLiteral x"
| "isStringLiteral e = False"

fun ResolveTypedef :: "godwarfType \<Rightarrow> godwarfType" where
  "ResolveTypedef (TypedefType n t) = ResolveTypedef t"
| "ResolveTypedef (QualType t) = ResolveTypedef t"
| "ResolveTypedef t = t"

definition compileAllocLiteralString :: "compileCtx \<Rightarrow> compileCtx" where
  "compileAllocLiteralString ctx =
     (let jmp = length (ops ctx);
          ctx1 = pushOp (Jump JumpIfAllocStringChecksFail 0 False None) ctx;
          ctx2 = compileSpecialCall ''runtime.mallocgc''
                   [Some (BasicLit INT_tok ''0''), Some (Ident ''nil''), Some (Ident ''false'')]
                   [Some PushLen, Some PushNil, Some (PushConst (MakeBool False))] True ctx1;
          ctx3 = pushOp ConvertAllocToString ctx2
      in setJumpTarget jmp (int (length (ops ctx3))) ctx3)"

definition compileDebugUnpin :: "compileCtx \<Rightarrow> compileCtx" where
  "compileDebugUnpin ctx =
     (if \<not> firstCall ctx \<and> flags ctx AND HasDebugPinner \<noteq> 0
      then pushOp SetDebugPinner (pushOp PushNil (pushOp Pop
             (compileSpecialCall ''runtime.(*Pinner).Unpin''
                [Some (Ident ''debugPinner'')] [Some PushDebugPinner] False ctx)))
      else ctx)"

definition compileIdent :: "evalLookup \<Rightarrow> string \<Rightarrow> compileCtx \<Rightarrow> error option \<times> compileCtx" where
  "compileIdent L name ctx =
     (if HasLocal L name then (None, pushOp (PushLocal name 0) ctx)
      else if HasGlobal L '''' name then (None, pushOp (PushPackageVar '''' name) ctx)
      else if name = ''true'' \<or> name = ''false''
        then (None, pushOp (PushConst (MakeBool (name = ''true''))) ctx)
      else if name = ''nil'' then (None, pushOp PushNil ctx)
      else (case LookupRegisterName L name of
              Some regnum \<Rightarrow> (None, pushOp (PushRegister regnum name) ctx)
            | None \<Rightarrow> (Some (CouldNotFindSymbol name), ctx)))"

text \<open>
  The branches of the \<open>SelectorExpr\<close> case of \<open>compileAST\<close> that do not compile a
  sub-expression: the instructions to append, or the error to return. Every other branch
  ends in \<open>compileUnary(node.X, &Select{...})\<close>, which is \<open>SelUnary\<close>.
\<close>

datatype selectorCase = SelOps "Op list" | SelError error | SelUnary

definition selectorCase :: "evalLookup \<Rightarrow> golib \<Rightarrow> expr \<Rightarrow> string \<Rightarrow> selectorCase" where
  "selectorCase L G x sel =
     (case x of
        Ident xname \<Rightarrow>
          if xname = ''runtime'' \<and> sel = ''curg'' then SelOps [PushCurg]
          else if xname = ''runtime'' \<and> sel = ''frameoff'' then SelOps [PushFrameoff]
          else if xname = ''runtime'' \<and> sel = ''threadid'' then SelOps [PushThreadID]
          else if HasLocal L xname then SelOps [PushLocal xname 0, Select sel]
          else if HasGlobal L xname sel then SelOps [PushPackageVar xname sel]
          else SelUnary
      | CallExpr xfun xargs \<Rightarrow>
          (case xfun of
             SelectorExpr fx fsel \<Rightarrow>
               (case fx of
                  Ident fname \<Rightarrow>
                    if fname = ''runtime'' \<and> fsel = ''frame'' then
                      (case xargs of
                         [] \<Rightarrow> SelError (Panic ''index out of range'')
                       | arg # rest \<Rightarrow>
                           (case arg of
                              BasicLit kind v \<Rightarrow>
                                (case ParseInt G v of
                                   Inl err \<Rightarrow> SelError err
                                 | Inr fr \<Rightarrow> SelOps [PushLocal sel fr])
                            | _ \<Rightarrow> SelError (ExpectedIntegerForFrame arg)))
                    else SelUnary
                | _ \<Rightarrow> SelUnary)
           | _ \<Rightarrow> SelUnary)
      | BasicLit kind v \<Rightarrow>
          (case Unquote G v of
             Inl err \<Rightarrow> SelError err
           | Inr s \<Rightarrow> if HasGlobal L s sel then SelOps [PushPackageVar s sel] else SelUnary)
      | _ \<Rightarrow> SelUnary)"

text \<open>
  The decision of \<open>compileTypeCastOrFuncCall\<close> for a call with one argument, from the
  head \<open>n\<close> of the call without parentheses and stars: a type cast (with the error to
  report if the type is unknown), a function call, the closure \<open>ambiguous\<close>, or the type
  cast first and the function call if the type is not found.
\<close>

datatype callCase = CastCase "error option" | CallCase | AmbiguousCase | CastThenCallCase

definition callCase :: "evalLookup \<Rightarrow> expr \<Rightarrow> callCase" where
  "callCase L n =
     (case n of
        BasicLit kind v \<Rightarrow> CastCase None
      | ArrayType s \<Rightarrow> CastCase None
      | StructType s \<Rightarrow> CastCase None
      | FuncType s \<Rightarrow> CastCase None
      | InterfaceType s \<Rightarrow> CastCase None
      | MapType s \<Rightarrow> CastCase None
      | ChanType s \<Rightarrow> CastCase None
      | SelectorExpr nx nsel \<Rightarrow>
          (case nx of
             Ident xname \<Rightarrow>
               (case FindTypeExpr L (Some n) of
                  Inr typ \<Rightarrow> CastCase None
                | Inl err \<Rightarrow> AmbiguousCase)
           | _ \<Rightarrow> CallCase)
      | Ident name \<Rightarrow>
          if HasBuiltin L name then CallCase
          else if HasGlobal L '''' name \<or> HasLocal L name then CallCase
          else CastCase (Some (CouldNotFindSymbol name))
      | IndexExpr nx idx \<Rightarrow>
          (case nx of
             Ident xname \<Rightarrow> CastThenCallCase
           | SelectorExpr sx ssel \<Rightarrow> CastThenCallCase
           | _ \<Rightarrow> CallCase)
      | IndexListExpr nx idxs \<Rightarrow> CastCase None
      | _ \<Rightarrow> CallCase)"

text \<open>The name of the builtin, when the function of a call is an identifier that names one.\<close>

definition builtinName :: "evalLookup \<Rightarrow> expr \<Rightarrow> string option" where
  "builtinName L fn =
     (case fn of
        Ident name \<Rightarrow> if HasBuiltin L name then Some name else None
      | _ \<Rightarrow> None)"

text \<open>The value of an element of a composite literal: \<open>elt.Value\<close> of a key-value pair, else the element.\<close>

definition eltValue :: "expr \<Rightarrow> expr" where
  "eltValue elt = (case elt of KeyValueExpr k v \<Rightarrow> v | _ \<Rightarrow> elt)"

text \<open>
  The field name of an element: the key of a key-value pair, which must be an identifier
  (the type assertion panics otherwise), else the name of the \<open>i\<close>-th field of the struct
  type (the index panics out of range).
\<close>

definition eltField :: "string list \<Rightarrow> nat \<Rightarrow> expr \<Rightarrow> error + string" where
  "eltField fieldNames i elt =
     (case elt of
        KeyValueExpr k v \<Rightarrow>
          (case k of Ident name \<Rightarrow> Inr name | _ \<Rightarrow> Inl (Panic ''interface conversion''))
      | _ \<Rightarrow> if i < length fieldNames then Inr (fieldNames ! i) else Inl (Panic ''index out of range''))"

text \<open>The loop \<open>for i := len(node.Args) - 1; i >= 0; i--\<close> of \<open>compileFunctionCallNew\<close>, with \<open>n = i + 1\<close>.\<close>

fun copyArgsReverse :: "int \<Rightarrow> expr list \<Rightarrow> nat \<Rightarrow> compileCtx \<Rightarrow> compileCtx" where
  "copyArgsReverse cid args 0 ctx = ctx"
| "copyArgsReverse cid args (Suc i) ctx =
     copyArgsReverse cid args i
       (pushOp (CallInjectionCopyArg cid (int i) (Some (args ! i))) ctx)"

definition pushOps :: "Op list \<Rightarrow> compileCtx \<Rightarrow> compileCtx" where
  "pushOps os ctx = foldl (\<lambda>c op. pushOp op c) ctx os"

definition newCtx :: "compileCtx" where
  "newCtx = \<lparr>ops = [], allowCalls = False, curCall = 0, flags = 0, firstCall = False\<rparr>"

subsection \<open>The compiler\<close>

function (sequential)
    compileAST :: "evalLookup \<Rightarrow> golib \<Rightarrow> expr \<Rightarrow> compileCtx \<Rightarrow> error option \<times> compileCtx"
  and compileTypeCastOrFuncCall :: "evalLookup \<Rightarrow> golib \<Rightarrow> expr \<Rightarrow> expr list \<Rightarrow> compileCtx \<Rightarrow> error option \<times> compileCtx"
  and compileTypeCast :: "evalLookup \<Rightarrow> golib \<Rightarrow> expr \<Rightarrow> expr list \<Rightarrow> error option \<Rightarrow> compileCtx \<Rightarrow> error option \<times> compileCtx"
  and compileBuiltinCall :: "evalLookup \<Rightarrow> golib \<Rightarrow> string \<Rightarrow> expr list \<Rightarrow> compileCtx \<Rightarrow> error option \<times> compileCtx"
  and compileBuiltinArgs :: "evalLookup \<Rightarrow> golib \<Rightarrow> expr list \<Rightarrow> compileCtx \<Rightarrow> error option \<times> compileCtx"
  and compileUnary :: "evalLookup \<Rightarrow> golib \<Rightarrow> expr \<Rightarrow> Op \<Rightarrow> compileCtx \<Rightarrow> error option \<times> compileCtx"
  and compileTypeAssert :: "evalLookup \<Rightarrow> golib \<Rightarrow> expr \<Rightarrow> expr option \<Rightarrow> compileCtx \<Rightarrow> error option \<times> compileCtx"
  and compileBinary :: "evalLookup \<Rightarrow> golib \<Rightarrow> expr \<Rightarrow> expr \<Rightarrow> Op option \<Rightarrow> Op \<Rightarrow> compileCtx \<Rightarrow> (error option \<times> compileCtx) \<times> nat"
  and compileReslice :: "evalLookup \<Rightarrow> golib \<Rightarrow> expr \<Rightarrow> expr option \<Rightarrow> expr option \<Rightarrow> bool \<Rightarrow> compileCtx \<Rightarrow> error option \<times> compileCtx"
  and compileFunctionCall :: "evalLookup \<Rightarrow> golib \<Rightarrow> expr \<Rightarrow> expr list \<Rightarrow> compileCtx \<Rightarrow> error option \<times> compileCtx"
  and compileFunctionCallOld :: "evalLookup \<Rightarrow> golib \<Rightarrow> expr \<Rightarrow> expr list \<Rightarrow> int \<Rightarrow> compileCtx \<Rightarrow> error option \<times> compileCtx"
  and compileArgsOld :: "evalLookup \<Rightarrow> golib \<Rightarrow> int \<Rightarrow> expr \<Rightarrow> int \<Rightarrow> expr list \<Rightarrow> compileCtx \<Rightarrow> error option \<times> compileCtx"
  and compileFunctionCallNew :: "evalLookup \<Rightarrow> golib \<Rightarrow> expr \<Rightarrow> expr list \<Rightarrow> int \<Rightarrow> compileCtx \<Rightarrow> error option \<times> compileCtx"
  and compileArgsNew :: "evalLookup \<Rightarrow> golib \<Rightarrow> expr \<Rightarrow> int \<Rightarrow> expr list \<Rightarrow> compileCtx \<Rightarrow> error option \<times> compileCtx"
  and compileElts :: "evalLookup \<Rightarrow> golib \<Rightarrow> string list \<Rightarrow> nat \<Rightarrow> expr list \<Rightarrow> compileCtx \<Rightarrow> error option \<times> compileCtx"
where
  "compileAST L G (CallExpr fn args) ctx = compileTypeCastOrFuncCall L G fn args ctx"
| "compileAST L G (Ident name) ctx = compileIdent L name ctx"
| "compileAST L G (ParenExpr x) ctx = compileAST L G x ctx"
| "compileAST L G (SelectorExpr x sel) ctx =
     (case selectorCase L G x sel of
        SelOps os \<Rightarrow> (None, pushOps os ctx)
      | SelError err \<Rightarrow> (Some err, ctx)
      | SelUnary \<Rightarrow> compileUnary L G x (Select sel) ctx)"
| "compileAST L G (TypeAssertExpr x typ) ctx = compileTypeAssert L G x typ ctx"
| "compileAST L G (IndexExpr x idx) ctx =
     fst (compileBinary L G x idx None (Index (IndexExpr x idx)) ctx)"
| "compileAST L G (SliceExpr x lo hi slice3) ctx =
     (if slice3 then (Some ThreeIndexSlice, ctx)
      else compileReslice L G x lo hi slice3 ctx)"
| "compileAST L G (StarExpr x) ctx = compileUnary L G x (PointerDeref (StarExpr x)) ctx"
| "compileAST L G (UnaryExpr op x) ctx =
     (if op = AND_tok then compileUnary L G x (AddrOf (UnaryExpr op x)) ctx
      else compileUnary L G x (Unary (UnaryExpr op x)) ctx)"
| "compileAST L G (BinaryExpr x op y) ctx =
     (if op = INC \<or> op = DEC \<or> op = ARROW then (Some (OperatorNotSupported op), ctx)
      else
        let sop = (if op = LAND then Some (Jump JumpIfFalse 0 False (Some x))
                   else if op = LOR then Some (Jump JumpIfTrue 0 False (Some x))
                   else None)
        in case compileBinary L G x y sop (Binary (BinaryExpr x op y)) ctx of
             ((Some err, ctx1), sopAt) \<Rightarrow> (Some err, ctx1)
           | ((None, ctx1), sopAt) \<Rightarrow>
               (if sop \<noteq> None
                then (None, pushOp BoolToConst
                              (setJumpTarget sopAt (int (length (ops ctx1))) ctx1))
                else (None, ctx1)))"
| "compileAST L G (BasicLit kind v) ctx = (None, pushOp (PushConst (MakeFromLiteral v kind)) ctx)"
| "compileAST L G (CompositeLit typ elts) ctx =
     (if flags ctx AND HasDebugPinner = 0 then (Some (NotImplemented (CompositeLit typ elts)), ctx)
      else
        case FindTypeExpr L typ of
          Inl err \<Rightarrow> (Some err, ctx)
        | Inr dtyp \<Rightarrow>
            (case ResolveTypedef dtyp of
               StructTypeD sname fieldNames \<Rightarrow>
                 if \<not> allowCalls ctx then (Some errFuncCallNotAllowedLitAlloc, ctx)
                 else
                   let ctx1 = compileSpecialCall ''runtime.mallocgc''
                                [Some (BasicLit INT_tok ''1''), typ, Some (Ident ''true'')]
                                [Some (PushConst (MakeInt64 1)), Some (PushRuntimeType dtyp),
                                 Some (PushConst (MakeBool True))] True ctx;
                       ctx2 = pushOp (TypeCast (PtrType dtyp) None) ctx1;
                       ctx3 = pushOp (PointerDeref (StarExpr (Ident ''runtime.mallocgc''))) ctx2
                   in compileElts L G fieldNames 0 elts ctx3
             | _ \<Rightarrow> (Some (NotImplemented (CompositeLit typ elts)), ctx)))"
| "compileAST L G t ctx = (Some (NotImplemented t), ctx)"

| "compileElts L G fieldNames i [] ctx = (None, ctx)"
| "compileElts L G fieldNames i (elt # rest) ctx =
     (let ctx1 = snd (compileAST L G (eltValue elt) ctx) in
      case eltField fieldNames i elt of
        Inl p \<Rightarrow> (Some p, ctx1)
      | Inr field \<Rightarrow>
          compileElts L G fieldNames (Suc i) rest
            (pushOp (SetValue None (eltValue elt)) (pushOp (Select field) (pushOp Dup ctx1))))"

| "compileTypeCastOrFuncCall L G fn args ctx =
     (if length args \<noteq> 1 then compileFunctionCall L G fn args ctx
      else
        case callCase L (removeParenStar fn) of
          CastCase ambiguousErr \<Rightarrow> compileTypeCast L G fn args ambiguousErr ctx
        | CallCase \<Rightarrow> compileFunctionCall L G fn args ctx
        | AmbiguousCase \<Rightarrow>
            (case fst (compileAST L G fn newCtx) of
               None \<Rightarrow> compileFunctionCall L G fn args ctx
             | Some err0 \<Rightarrow> compileTypeCast L G fn args (Some err0) ctx)
        | CastThenCallCase \<Rightarrow>
            (case compileTypeCast L G fn args None ctx of
               (None, ctx1) \<Rightarrow> (None, ctx1)
             | (Some err, ctx1) \<Rightarrow>
                 if err \<noteq> ErrTypeNotFound then (Some err, ctx1)
                 else compileFunctionCall L G fn args ctx1))"

| "compileTypeCast L G fn args ambiguousErr ctx =
     (case args of
        [] \<Rightarrow> (Some (Panic ''index out of range''), ctx)
      | arg0 # rest \<Rightarrow>
          (case compileAST L G arg0 ctx of
             (Some err, ctx1) \<Rightarrow> (Some err, ctx1)
           | (None, ctx1) \<Rightarrow>
               let fnnode = removeParen fn;
                   targetTypeStr = ExprToString G (removeParen fn)
               in case FindTypeExpr L (Some fnnode) of
                    Inr styp \<Rightarrow> (None, pushOp (TypeCast styp (Some (CallExpr fn args))) ctx1)
                  | Inl err \<Rightarrow>
                      if targetTypeStr = ''[]byte'' \<or> targetTypeStr = ''[]uint8''
                        then (None, pushOp (TypeCast (FakeSliceType (FakeBasicType ''uint'' 8))
                                              (Some (CallExpr fn args))) ctx1)
                      else if targetTypeStr = ''[]int32'' \<or> targetTypeStr = ''[]rune''
                        then (None, pushOp (TypeCast (FakeSliceType (FakeBasicType ''int'' 32))
                                              (Some (CallExpr fn args))) ctx1)
                      else if ambiguousErr \<noteq> None \<and> err = ErrTypeNotFound
                        then (Some (CouldNotEvaluate (ExprToString G fn) (the ambiguousErr)), ctx1)
                      else (Some err, ctx1)))"

| "compileBuiltinCall L G builtin args ctx =
     (case compileBuiltinArgs L G args ctx of
        (Some err, ctx1) \<Rightarrow> (Some err, ctx1)
      | (None, ctx1) \<Rightarrow> (None, pushOp (BuiltinCall builtin args) ctx1))"

| "compileBuiltinArgs L G [] ctx = (None, ctx)"
| "compileBuiltinArgs L G (arg # rest) ctx =
     (case compileAST L G arg ctx of
        (Some err, ctx1) \<Rightarrow> (Some err, ctx1)
      | (None, ctx1) \<Rightarrow> compileBuiltinArgs L G rest ctx1)"

| "compileUnary L G x op ctx =
     (case compileAST L G x ctx of
        (Some err, ctx1) \<Rightarrow> (Some err, ctx1)
      | (None, ctx1) \<Rightarrow> (None, pushOp op ctx1))"

| "compileTypeAssert L G x typ ctx =
     (case compileAST L G x ctx of
        (Some err, ctx1) \<Rightarrow> (Some err, ctx1)
      | (None, ctx1) \<Rightarrow>
          if typ \<noteq> Some (Ident ''data'') then
            (case FindTypeExpr L typ of
               Inl err \<Rightarrow> (Some err, ctx1)
             | Inr t \<Rightarrow> (None, pushOp (TypeAssert (Some t) (TypeAssertExpr x typ)) ctx1))
          else (None, pushOp (TypeAssert None (TypeAssertExpr x typ)) ctx1))"

| "compileBinary L G a b sop op ctx =
     (case compileAST L G a ctx of
        (Some err, ctx1) \<Rightarrow> ((Some err, ctx1), 0)
      | (None, ctx1) \<Rightarrow>
          let sopAt = length (ops ctx1);
              ctx2 = (case sop of None \<Rightarrow> ctx1 | Some j \<Rightarrow> pushOp j ctx1)
          in case compileAST L G b ctx2 of
               (Some err, ctx3) \<Rightarrow> ((Some err, ctx3), sopAt)
             | (None, ctx3) \<Rightarrow> ((None, pushOp op ctx3), sopAt))"

| "compileReslice L G x lo hi slice3 ctx =
     (case compileAST L G x ctx of
        (Some err, ctx1) \<Rightarrow> (Some err, ctx1)
      | (None, ctx1) \<Rightarrow>
          (case (case hi of
                   None \<Rightarrow> (None, ctx1)
                 | Some h \<Rightarrow> compileAST L G h ctx1) of
             (Some err, ctx2) \<Rightarrow> (Some err, ctx2)
           | (None, ctx2) \<Rightarrow>
               (case (case lo of
                        None \<Rightarrow> (None, pushOp (PushConst (MakeInt64 0)) ctx2)
                      | Some l \<Rightarrow> compileAST L G l ctx2) of
                  (Some err, ctx3) \<Rightarrow> (Some err, ctx3)
                | (None, ctx3) \<Rightarrow>
                    (None, pushOp (Reslice (hi \<noteq> None) (SliceExpr x lo hi slice3)) ctx3))))"

| "compileFunctionCall L G fn args ctx =
     (case builtinName L fn of
        Some builtin \<Rightarrow> compileBuiltinCall L G builtin args ctx
      | None \<Rightarrow>
          if \<not> allowCalls ctx then (Some ErrFuncCallNotAllowed, ctx)
          else
            let cid = curCall ctx;
                ctx1 = ctx\<lparr>curCall := cid + 1\<rparr>
            in if flags ctx1 AND HasDebugPinner \<noteq> 0
               then compileFunctionCallNew L G fn args cid ctx1
               else compileFunctionCallOld L G fn args cid ctx1)"

| "compileFunctionCallOld L G fn args cid ctx =
     (let oldAllowCalls = allowCalls ctx;
          oldOps = ops ctx;
          r = compileAST L G fn (ctx\<lparr>allowCalls := False\<rparr>);
          err = fst r;
          ctx1 = (snd r)\<lparr>allowCalls := oldAllowCalls\<rparr>;
          hasFunc = (err = None);
          ctx2 = (if err \<noteq> None then ctx1\<lparr>ops := oldOps\<rparr> else ctx1)
      in if err \<noteq> None \<and> err \<noteq> Some ErrFuncCallNotAllowed then (err, ctx2)
         else
           let ctx3 = pushOp (CallInjectionStart cid hasFunc (CallExpr fn args)) ctx2;
               jmpif = length (ops ctx3);
               ctx4 = (if hasFunc then pushOp (Jump JumpIfFalse 0 True None) ctx3 else ctx3);
               ctx5 = pushOp Pop ctx4
           in case compileAST L G fn ctx5 of
                (Some err1, ctx6) \<Rightarrow> (Some err1, ctx6)
              | (None, ctx6) \<Rightarrow>
                  let ctx7 = (if hasFunc then setJumpTarget jmpif (int (length (ops ctx6))) ctx6
                              else ctx6);
                      ctx8 = pushOp (CallInjectionSetTarget cid) ctx7
                  in case compileArgsOld L G cid fn 0 args ctx8 of
                       (Some err2, ctx9) \<Rightarrow> (Some err2, ctx9)
                     | (None, ctx9) \<Rightarrow> (None, pushOp (CallInjectionComplete cid False) ctx9))"

| "compileArgsOld L G cid fn i [] ctx = (None, ctx)"
| "compileArgsOld L G cid fn i (arg # rest) ctx =
     (case compileAST L G arg ctx of
        (Some err, ctx1) \<Rightarrow>
          (Some (ErrorEvaluatingArgument (ExprToString G arg) (i + 1) (ExprToString G fn) err), ctx1)
      | (None, ctx1) \<Rightarrow>
          let ctx2 = (if isStringLiteral arg then compileAllocLiteralString ctx1 else ctx1)
          in compileArgsOld L G cid fn (i + 1) rest
               (pushOp (CallInjectionCopyArg cid i (Some arg)) ctx2))"

| "compileFunctionCallNew L G fn args cid ctx =
     (let ctx1 = compileGetDebugPinner ctx in
      case compileAST L G fn ctx1 of
        (Some err, ctx2) \<Rightarrow> (Some err, ctx2)
      | (None, ctx2) \<Rightarrow>
          (case compileArgsNew L G fn 0 args ctx2 of
             (Some err, ctx3) \<Rightarrow> (Some err, ctx3)
           | (None, ctx3) \<Rightarrow>
               let ctx4 = pushOp (Roll (int (length args))) ctx3;
                   ctx5 = pushOp (CallInjectionStart cid True (CallExpr fn args)) ctx4;
                   ctx6 = pushOp Pop ctx5;
                   ctx7 = pushOp (CallInjectionSetTarget cid) ctx6;
                   ctx8 = copyArgsReverse cid args (length args) ctx7;
                   ctx9 = pushOp (CallInjectionComplete cid True) ctx8
               in (None, compilePinningLoop cid ctx9)))"

| "compileArgsNew L G fn i [] ctx = (None, ctx)"
| "compileArgsNew L G fn i (arg # rest) ctx =
     (let r = compileAST L G arg ctx;
          err = fst r;
          ctx1 = snd r;
          ctx2 = (if isStringLiteral arg then compileAllocLiteralString ctx1 else ctx1)
      in case err of
           Some e \<Rightarrow>
             (Some (ErrorEvaluatingArgument (ExprToString G arg) (i + 1) (ExprToString G fn) e), ctx2)
         | None \<Rightarrow> compileArgsNew L G fn (i + 1) rest ctx2)"
  by pat_completeness auto


termination
  by (relation "measure (\<lambda>x. case x of
      Inl (Inl (Inl (L, G, t, ctx))) \<Rightarrow> 8 * size t
    | Inl (Inl (Inr (Inl (L, G, fn, args, ctx)))) \<Rightarrow> 8 * (size fn + size_list size args) + 4
    | Inl (Inl (Inr (Inr (L, G, fn, args, e, ctx)))) \<Rightarrow> 8 * (size fn + size_list size args) + 2
    | Inl (Inr (Inl (Inl (L, G, b, args, ctx)))) \<Rightarrow> 8 * size_list size args + 2
    | Inl (Inr (Inl (Inr (L, G, args, ctx)))) \<Rightarrow> 8 * size_list size args + 1
    | Inl (Inr (Inr (Inl (L, G, t, op, ctx)))) \<Rightarrow> 8 * size t + 1
    | Inl (Inr (Inr (Inr (L, G, t, typ, ctx)))) \<Rightarrow> 8 * size t + 1
    | Inr (Inl (Inl (Inl (L, G, a, b, sop, op, ctx)))) \<Rightarrow> 8 * (size a + size b) + 1
    | Inr (Inl (Inl (Inr (L, G, t, lo, hi, s3, ctx)))) \<Rightarrow>
        8 * (size t + size_option size lo + size_option size hi) + 1
    | Inr (Inl (Inr (Inl (L, G, fn, args, ctx)))) \<Rightarrow> 8 * (size fn + size_list size args) + 3
    | Inr (Inl (Inr (Inr (L, G, fn, args, cid, ctx)))) \<Rightarrow> 8 * (size fn + size_list size args) + 2
    | Inr (Inr (Inl (Inl (L, G, cid, fn, i, args, ctx)))) \<Rightarrow> 8 * size_list size args + 1
    | Inr (Inr (Inl (Inr (L, G, fn, args, cid, ctx)))) \<Rightarrow> 8 * (size fn + size_list size args) + 2
    | Inr (Inr (Inr (Inl (L, G, fn, i, args, ctx)))) \<Rightarrow> 8 * size_list size args + 1
    | Inr (Inr (Inr (Inr (L, G, fieldNames, i, elts, ctx)))) \<Rightarrow> 8 * size_list size elts + 1)")
   (simp_all, case_tac elt, simp_all add: eltValue_def)

subsection \<open>Entry points\<close>

text \<open>
  The entry points return \<open>([]Op, error)\<close>: the pair of the instructions (\<open>[]\<close> for nil)
  and the error (\<open>None\<close> for nil). \<open>ar\<close> is the table of \<open>op.depthCheck()\<close>.
\<close>

definition startCtx :: "Flags \<Rightarrow> compileCtx" where
  "startCtx fl = \<lparr>ops = [], allowCalls = True, curCall = 0, flags = fl, firstCall = True\<rparr>"

definition CompileAST ::
  "(Op \<Rightarrow> int \<times> int) \<Rightarrow> evalLookup \<Rightarrow> golib \<Rightarrow> expr \<Rightarrow> Flags \<Rightarrow> Op list \<times> error option" where
  "CompileAST ar L G t fl =
     (case compileAST L G t (startCtx fl) of
        (Some err, ctx) \<Rightarrow> ([], Some err)
      | (None, ctx) \<Rightarrow>
          let ctx1 = compileDebugUnpin ctx
          in (ops ctx1, depthCheck ar (ops ctx1) 1))"

definition CompileSet ::
  "(Op \<Rightarrow> int \<times> int) \<Rightarrow> evalLookup \<Rightarrow> golib \<Rightarrow> string \<Rightarrow> string \<Rightarrow> Flags \<Rightarrow> Op list \<times> error option" where
  "CompileSet ar L G lhexpr rhexpr fl =
     (case ParseExpr G lhexpr of
        Inl err \<Rightarrow> ([], Some err)
      | Inr lhe \<Rightarrow>
          (case ParseExpr G rhexpr of
             Inl err \<Rightarrow> ([], Some err)
           | Inr rhe \<Rightarrow>
               (case compileAST L G rhe (startCtx fl) of
                  (Some err, ctx) \<Rightarrow> ([], Some err)
                | (None, ctx) \<Rightarrow>
                    let ctx1 = (if isStringLiteral rhe then compileAllocLiteralString ctx else ctx)
                    in case compileAST L G lhe ctx1 of
                         (Some err, ctx2) \<Rightarrow> ([], Some err)
                       | (None, ctx2) \<Rightarrow>
                           let ctx3 = pushOp (SetValue (Some lhe) rhe) ctx2
                           in (ops ctx3, depthCheck ar (ops ctx3) 0))))"

text \<open>The message \<open>expected '==', found '='\<close>.\<close>

definition assignmentMsg :: string where
  "assignmentMsg = ''expected '' @ [CHR 0x27] @ ''=='' @ [CHR 0x27] @ '', found ''
                         @ [CHR 0x27] @ ''='' @ [CHR 0x27]"

text \<open>
  \<open>isAssignment\<close>: the offset of the first entry of a scanner error list whose message is
  the one below.
\<close>

definition isAssignment :: "error \<Rightarrow> nat option" where
  "isAssignment err =
     (case err of
        ScannerErrorList el0 rest \<Rightarrow>
          if fst el0 = assignmentMsg then Some (snd el0) else None
      | _ \<Rightarrow> None)"

text \<open>The slices \<open>expr[:eqOff]\<close> and \<open>expr[eqOff+1:]\<close> panic when \<open>eqOff + 1\<close> exceeds the length.\<close>

definition Compile ::
  "(Op \<Rightarrow> int \<times> int) \<Rightarrow> evalLookup \<Rightarrow> golib \<Rightarrow> string \<Rightarrow> Flags \<Rightarrow> Op list \<times> error option" where
  "Compile ar L G expr fl =
     (case ParseExpr G expr of
        Inl err \<Rightarrow>
          (if fl AND CanSet \<noteq> 0 then
             (case isAssignment err of
                Some eqOff \<Rightarrow>
                  if length expr < eqOff + 1 then ([], Some (Panic ''slice bounds out of range''))
                  else CompileSet ar L G (take eqOff expr) (drop (eqOff + 1) expr) fl
              | None \<Rightarrow> ([], Some err))
           else ([], Some err))
      | Inr t \<Rightarrow> CompileAST ar L G t fl)"

subsection \<open>What the depth check establishes\<close>

text \<open>
  The property of a depth table that the claims state: \<open>depth ! i\<close> is the depth before
  instruction \<open>i\<close>; the instruction has its operands; the fallthrough edge and, for a jump,
  the edge to its target both arrive with the depth after the instruction.
\<close>

definition edgeAgrees :: "(Op \<Rightarrow> int \<times> int) \<Rightarrow> Op list \<Rightarrow> int list \<Rightarrow> nat \<Rightarrow> bool" where
  "edgeAgrees ar prog depth i \<longleftrightarrow>
     (let d = depth ! i - fst (ar (prog ! i)) + snd (ar (prog ! i)) in
      fst (ar (prog ! i)) \<le> depth ! i \<and> depth ! Suc i = d \<and>
      (\<forall>when target pop node. prog ! i = Jump when target pop node \<longrightarrow>
          0 \<le> target \<and> target \<le> int (length prog) \<and> depth ! nat target = d))"

definition depthsAgree :: "(Op \<Rightarrow> int \<times> int) \<Rightarrow> Op list \<Rightarrow> int list \<Rightarrow> bool" where
  "depthsAgree ar prog depth \<longleftrightarrow>
     length depth = length prog + 1 \<and> depth ! 0 = 0 \<and>
     (\<forall>j \<le> length prog. 0 \<le> depth ! j) \<and>
     (\<forall>i < length prog. edgeAgrees ar prog depth i)"

subsection \<open>The instructions of a special call, as lists\<close>

text \<open>
  What the helpers of \<open>compileSpecialCall\<close> append, written as lists, to state the
  lowering in closed form: the operand and copy instructions of \<open>pushSpecialArgs\<close>, the
  special call without its pinning loop, and the pinning loop that starts at index
  \<open>start\<close> and calls \<open>Pin\<close> with the call id \<open>pid\<close>.
\<close>

fun specialArgOps :: "int \<Rightarrow> int \<Rightarrow> Op option list \<Rightarrow> Op list" where
  "specialArgOps cid i [] = []"
| "specialArgOps cid i (a # rest) =
     (case a of None \<Rightarrow> [] | Some op \<Rightarrow> [op]) @
     CallInjectionCopyArg cid i None # specialArgOps cid (i + 1) rest"

definition specialCallOps :: "int \<Rightarrow> string \<Rightarrow> expr option list \<Rightarrow> Op option list \<Rightarrow> bool \<Rightarrow> Op list" where
  "specialCallOps cid fnname argAst args doPinning =
     CallInjectionStartSpecial cid fnname argAst # CallInjectionSetTarget cid #
     specialArgOps cid 0 args @ [CallInjectionComplete cid doPinning]"

definition pinningLoopOps :: "int \<Rightarrow> nat \<Rightarrow> int \<Rightarrow> Op list" where
  "pinningLoopOps cid start pid =
     [Jump JumpIfPinningDone (int start + 10) False None,
      PushPinAddress,
      CallInjectionStartSpecial pid ''runtime.(*Pinner).Pin''
        [Some (Ident ''debugPinner''), Some (Ident ''pinAddress'')],
      CallInjectionSetTarget pid,
      PushDebugPinner,
      CallInjectionCopyArg pid 0 None,
      CallInjectionCopyArg pid 1 None,
      CallInjectionComplete pid False,
      Pop,
      Jump JumpAlways (int start) False None,
      CallInjectionComplete2 cid]"

subsection \<open>The vocabulary of the claims about the lowering\<close>

text \<open>
  The pinner acquisition at index \<open>i\<close> of a program: a special call to
  \<open>runtime.debugPinner\<close> without arguments, followed by \<open>SetDebugPinner\<close>.
\<close>

definition acquisitionAt :: "Op list \<Rightarrow> nat \<Rightarrow> bool" where
  "acquisitionAt prog i \<longleftrightarrow>
     i < length prog \<and>
     (case prog ! i of
        CallInjectionStartSpecial cid fnname argAst \<Rightarrow>
          fnname = DebugPinnerFunctionName \<and>
          take 3 (drop (Suc i) prog) =
            [CallInjectionSetTarget cid, CallInjectionComplete cid False, SetDebugPinner]
      | _ \<Rightarrow> False)"

definition hasAcquisition :: "Op list \<Rightarrow> bool" where
  "hasAcquisition prog = list_ex (acquisitionAt prog) [0..<length prog]"

text \<open>
  The pinner release: a special call to \<open>runtime.(*Pinner).Unpin\<close> on the stored pinner,
  followed by \<open>Pop\<close>, \<open>PushNil\<close>, \<open>SetDebugPinner\<close>; and a program that ends with it.
\<close>

definition releaseOps :: "int \<Rightarrow> Op list" where
  "releaseOps cid =
     [CallInjectionStartSpecial cid ''runtime.(*Pinner).Unpin'' [Some (Ident ''debugPinner'')],
      CallInjectionSetTarget cid,
      PushDebugPinner,
      CallInjectionCopyArg cid 0 None,
      CallInjectionComplete cid False,
      Pop, PushNil, SetDebugPinner]"

definition endsWithRelease :: "Op list \<Rightarrow> bool" where
  "endsWithRelease prog \<longleftrightarrow>
     8 \<le> length prog \<and>
     (case prog ! (length prog - 8) of
        CallInjectionStartSpecial cid fnname argAst \<Rightarrow>
          drop (length prog - 8) prog = releaseOps cid
      | _ \<Rightarrow> False)"

text \<open>
  An expression without a call and without a composite literal: the contexts in which the
  compiler injects no call.
\<close>

fun noCalls :: "expr \<Rightarrow> bool" where
  "noCalls (CallExpr fn args) = False"
| "noCalls (CompositeLit typ elts) = False"
| "noCalls (ParenExpr x) = noCalls x"
| "noCalls (SelectorExpr x sel) = noCalls x"
| "noCalls (IndexExpr x idx) = (noCalls x \<and> noCalls idx)"
| "noCalls (SliceExpr x lo hi slice3) =
     (noCalls x \<and> (case lo of None \<Rightarrow> True | Some l \<Rightarrow> noCalls l)
                \<and> (case hi of None \<Rightarrow> True | Some h \<Rightarrow> noCalls h))"
| "noCalls (TypeAssertExpr x typ) = noCalls x"
| "noCalls (StarExpr x) = noCalls x"
| "noCalls (UnaryExpr op x) = noCalls x"
| "noCalls (BinaryExpr x op y) = (noCalls x \<and> noCalls y)"
| "noCalls e = True"

section \<open>Sample inputs\<close>

text \<open>
  Modelled from the spec: the methods \<open>depthCheck\<close> of the opcodes, whose declarations
  are not among the sources. The spec (section 3) gives every opcode a fixed pair
  \<open>(pops, pushes)\<close>, \<open>Roll n\<close> the pair \<open>(n, n)\<close> and the argument copier \<open>(1, 0)\<close>; its scenario
  \<open>1+2\<close> with depths \<open>[0,1,2,1]\<close> gives \<open>PushConst\<close> \<open>(0, 1)\<close> and \<open>Binary\<close> \<open>(2, 1)\<close>. The other
  entries are the stack effects that the lowering rules of its section 4.1 describe. The
  table is used only to instantiate the parameter \<open>ar\<close> at concrete inputs.
\<close>

fun sampleArity :: "Op \<Rightarrow> int \<times> int" where
  "sampleArity PushLen = (1, 2)"
| "sampleArity (Select name) = (1, 1)"
| "sampleArity (TypeAssert t node) = (1, 1)"
| "sampleArity (PointerDeref node) = (1, 1)"
| "sampleArity (Unary node) = (1, 1)"
| "sampleArity (AddrOf node) = (1, 1)"
| "sampleArity (TypeCast t node) = (1, 1)"
| "sampleArity (Reslice hasHigh node) = (if hasHigh then (3, 1) else (2, 1))"
| "sampleArity (Index node) = (2, 1)"
| "sampleArity (Jump when target pop node) = (if pop then (1, 0) else (0, 0))"
| "sampleArity (Binary node) = (2, 1)"
| "sampleArity BoolToConst = (1, 1)"
| "sampleArity Pop = (1, 0)"
| "sampleArity Dup = (1, 2)"
| "sampleArity (Roll n) = (n, n)"
| "sampleArity (BuiltinCall name args) = (int (length args), 1)"
| "sampleArity (CallInjectionStart cid hasFunc node) = (0, 1)"
| "sampleArity (CallInjectionSetTarget cid) = (1, 0)"
| "sampleArity (CallInjectionCopyArg cid argNum argExpr) = (1, 0)"
| "sampleArity (CallInjectionComplete cid doPinning) = (0, 1)"
| "sampleArity (CallInjectionComplete2 cid) = (0, 0)"
| "sampleArity (CallInjectionStartSpecial cid fnname argAst) = (0, 1)"
| "sampleArity ConvertAllocToString = (2, 1)"
| "sampleArity (SetValue lhe rhe) = (2, 0)"
| "sampleArity SetDebugPinner = (1, 0)"
| "sampleArity op = (0, 1)"

text \<open>
  A scope with the locals \<open>a\<close>, \<open>b\<close>, \<open>x\<close>, \<open>y\<close> and \<open>f\<close> and the builtin \<open>len\<close>, without globals,
  registers or types.
\<close>

definition sampleLookup :: evalLookup where
  "sampleLookup =
     \<lparr>FindTypeExpr = (\<lambda>e. Inl ErrTypeNotFound),
      HasLocal = (\<lambda>n. n \<in> {''a'', ''b'', ''x'', ''y'', ''f''}),
      HasGlobal = (\<lambda>pkg n. False),
      HasBuiltin = (\<lambda>n. n = ''len''),
      LookupRegisterName = (\<lambda>n. None)\<rparr>"

text \<open>
  A library whose parser knows the texts \<open>x\<close>, \<open>y\<close>, \<open>"hi"\<close> and \<open>f()\<close>, and reports the
  assignment \<open>x = y\<close> the way the Go scanner does, at offset 2.
\<close>

definition hiLit :: string where
  "hiLit = [CHR 0x22] @ ''hi'' @ [CHR 0x22]"

definition sampleLib :: golib where
  "sampleLib =
     \<lparr>ParseExpr = (\<lambda>s.
         if s = ''x'' \<or> s = ''x '' then Inr (Ident ''x'')
         else if s = ''y'' \<or> s = '' y'' then Inr (Ident ''y'')
         else if s = hiLit then Inr (BasicLit STRING hiLit)
         else if s = ''f()'' then Inr (CallExpr (Ident ''f'') [])
         else if s = ''x = y'' then Inl (ScannerErrorList (assignmentMsg, 2) [])
         else Inl (ExternalError ''syntax error'')),
      ParseInt = (\<lambda>s. Inl (ExternalError ''invalid syntax'')),
      Unquote = (\<lambda>s. Inl (ExternalError ''invalid syntax'')),
      ExprToString = (\<lambda>e. '''')\<rparr>"
section \<open>Properties of the depth check\<close>

lemma checkAndSet_Inr:
  assumes "checkAndSet j d (depth, err) = Inr (depth1, err1)"
  shows "0 \<le> j" and "j < int (length depth)" and "length depth1 = length depth"
    and "\<And>m. 0 \<le> depth ! m \<Longrightarrow> depth1 ! m = depth ! m"
    and "err1 = None \<Longrightarrow> depth1 ! nat j = d"
    and "err1 = None \<Longrightarrow> err = None"
proof -
  from assms have r: "0 \<le> j" "j < int (length depth)"
    by (auto simp: checkAndSet_def Let_def split: if_splits)
  from assms r have d1: "depth1 = (if depth ! nat j < 0 then depth[nat j := d] else depth)"
    by (auto simp: checkAndSet_def Let_def split: if_splits)
  from assms r have e1: "err1 = (if d \<noteq> depth1 ! nat j then Some (DepthJumpTarget j d (depth1 ! nat j)) else err)"
    unfolding d1 by (auto simp: checkAndSet_def Let_def split: if_splits)
  show "0 \<le> j" "j < int (length depth)" by (rule r)+
  show "length depth1 = length depth" by (simp add: d1)
  show "depth1 ! m = depth ! m" if "0 \<le> depth ! m" for m
  proof (cases "depth ! nat j < 0")
    case True
    with that have "m \<noteq> nat j" by auto
    with True show ?thesis by (simp add: d1)
  next
    case False
    then show ?thesis by (simp add: d1)
  qed
  show "err1 = None \<Longrightarrow> depth1 ! nat j = d" using e1 by (auto split: if_splits)
  show "err1 = None \<Longrightarrow> err = None" using e1 by (auto split: if_splits)
qed

lemma depthCheckSwitch_Inr:
  assumes "depthCheckSwitch op i d seen (dp1, e1) = Inr ((dp2, None), seen2)"
  shows "length dp2 = length dp1" and "e1 = None"
    and "\<And>m. 0 \<le> dp1 ! m \<Longrightarrow> dp2 ! m = dp1 ! m"
    and "\<And>w t p nd. op = Jump w t p nd \<Longrightarrow> 0 \<le> t \<and> t < int (length dp1) \<and> dp2 ! nat t = d"
    and "\<And>c. op = CallInjectionComplete c True \<Longrightarrow> seen"
    and "seen2 = (seen \<or> (\<exists>c f a. op = CallInjectionStartSpecial c f a))"
  using assms
  by (cases op; auto simp: depthCheckSwitch_def split: sum.splits if_splits dest: checkAndSet_Inr)+

lemma depthCheckStep_eq:
  "depthCheckStep ar i op (depth, seen) =
     (if depth ! i < fst (ar op) then Inl (DepthTooSmall (int i) (fst (ar op)) (depth ! i))
      else case checkAndSet (int i + 1) (depth ! i - fst (ar op) + snd (ar op)) (depth, None) of
          Inl p \<Rightarrow> Inl p
        | Inr st1 \<Rightarrow>
            (case depthCheckSwitch op i (depth ! i - fst (ar op) + snd (ar op)) seen st1 of
               Inl p \<Rightarrow> Inl p
             | Inr (st3, sn) \<Rightarrow>
                 (case snd st3 of
                    Some e \<Rightarrow> Inl e
                  | None \<Rightarrow> Inr (fst st3, sn))))"
  by (simp add: depthCheckStep_def Let_def)

lemma depthCheckStep_Inr:
  assumes "depthCheckStep ar i op (depth, seen) = Inr (depth1, seen1)"
    and "0 \<le> snd (ar op)"
  shows "fst (ar op) \<le> depth ! i"
    and "length depth1 = length depth"
    and "Suc i < length depth"
    and "depth1 ! Suc i = depth ! i - fst (ar op) + snd (ar op)"
    and "\<And>m. 0 \<le> depth ! m \<Longrightarrow> depth1 ! m = depth ! m"
    and "\<And>w t p nd. op = Jump w t p nd \<Longrightarrow>
           0 \<le> t \<and> t < int (length depth) \<and> depth1 ! nat t = depth ! i - fst (ar op) + snd (ar op)"
proof -
  let ?d = "depth ! i - fst (ar op) + snd (ar op)"
  from assms(1) have le: "fst (ar op) \<le> depth ! i"
    by (auto simp: depthCheckStep_eq split: if_splits)
  with assms(2) have d0: "0 \<le> ?d" by simp
  from assms(1) le obtain dp1 e1 where
    c1: "checkAndSet (int i + 1) ?d (depth, None) = Inr (dp1, e1)"
    by (auto simp: depthCheckStep_eq split: if_splits sum.splits)
  from assms(1) le c1 have c2: "depthCheckSwitch op i ?d seen (dp1, e1) = Inr ((depth1, None), seen1)"
    by (auto simp: depthCheckStep_eq split: if_splits sum.splits option.splits prod.splits)
  note A = checkAndSet_Inr[OF c1]
  note B = depthCheckSwitch_Inr[OF c2]
  show "fst (ar op) \<le> depth ! i" by (rule le)
  show "Suc i < length depth" using A(2) by simp
  show "length depth1 = length depth" using A(3) B(1) by simp
  have "dp1 ! Suc i = ?d" using A(5)[OF B(2)] by (simp add: nat_add_distrib)
  then show "depth1 ! Suc i = ?d" using B(3)[of "Suc i"] d0 by simp
  show "\<And>m. 0 \<le> depth ! m \<Longrightarrow> depth1 ! m = depth ! m"
    using A(4) B(3) by simp
  show "\<And>w t p nd. op = Jump w t p nd \<Longrightarrow>
           0 \<le> t \<and> t < int (length depth) \<and> depth1 ! nat t = ?d"
    using B(4) A(3) by simp
qed

lemma depthCheckStep_seen:
  assumes "depthCheckStep ar i op (depth, seen) = Inr (depth1, seen1)"
  shows "\<And>c. op = CallInjectionComplete c True \<Longrightarrow> seen"
    and "seen1 = (seen \<or> (\<exists>c f a. op = CallInjectionStartSpecial c f a))"
proof -
  let ?d = "depth ! i - fst (ar op) + snd (ar op)"
  from assms(1) have le: "fst (ar op) \<le> depth ! i"
    by (auto simp: depthCheckStep_eq split: if_splits)
  from assms(1) le obtain dp1 e1 where
    c1: "checkAndSet (int i + 1) ?d (depth, None) = Inr (dp1, e1)"
    by (auto simp: depthCheckStep_eq split: if_splits sum.splits)
  from assms(1) le c1 have c2: "depthCheckSwitch op i ?d seen (dp1, e1) = Inr ((depth1, None), seen1)"
    by (auto simp: depthCheckStep_eq split: if_splits sum.splits option.splits prod.splits)
  note B = depthCheckSwitch_Inr[OF c2]
  show "\<And>c. op = CallInjectionComplete c True \<Longrightarrow> seen" using B(5) by simp
  show "seen1 = (seen \<or> (\<exists>c f a. op = CallInjectionStartSpecial c f a))" using B(6) by simp
qed

lemma depthCheckLoop_inv:
  assumes ar: "\<forall>op \<in> set prog. 0 \<le> fst (ar op) \<and> 0 \<le> snd (ar op)"
  shows "depthCheckLoop ar k rest (depth, seen) = Inr (depth', seen') \<Longrightarrow>
         prog = pre @ rest \<Longrightarrow> length pre = k \<Longrightarrow>
         length depth = length prog + 1 \<Longrightarrow> depth ! 0 = 0 \<Longrightarrow>
         (\<forall>j \<le> k. 0 \<le> depth ! j) \<Longrightarrow> (\<forall>i < k. edgeAgrees ar prog depth i) \<Longrightarrow>
         depthsAgree ar prog depth'"
proof (induction rest arbitrary: k pre depth seen)
  case Nil
  then show ?case by (simp add: depthsAgree_def)
next
  case (Cons op rest)
  from Cons.prems(1) obtain depth1 seen1 where
    step: "depthCheckStep ar k op (depth, seen) = Inr (depth1, seen1)" and
    loop: "depthCheckLoop ar (Suc k) rest (depth1, seen1) = Inr (depth', seen')"
    by (auto split: sum.splits)
  have opk: "prog ! k = op" using Cons.prems(2,3) by (simp add: nth_append)
  have "op \<in> set prog" using Cons.prems(2) by simp
  then have push: "0 \<le> snd (ar op)" and pop: "0 \<le> fst (ar op)" using ar by simp_all
  note S = depthCheckStep_Inr[OF step push]
  let ?d = "depth ! k - fst (ar op) + snd (ar op)"
  have d0: "0 \<le> ?d" using S(1) push by simp
  have keep: "\<And>m. 0 \<le> depth ! m \<Longrightarrow> depth1 ! m = depth ! m" by (rule S(5))
  have nonneg: "\<forall>j \<le> Suc k. 0 \<le> depth1 ! j"
  proof (intro allI impI)
    fix j assume "j \<le> Suc k"
    show "0 \<le> depth1 ! j"
    proof (cases "j = Suc k")
      case True then show ?thesis using S(4) d0 by simp
    next
      case False
      with \<open>j \<le> Suc k\<close> have "j \<le> k" by simp
      then have "0 \<le> depth ! j" using Cons.prems(6) by simp
      then show ?thesis using keep by simp
    qed
  qed
  have edges: "\<forall>i < Suc k. edgeAgrees ar prog depth1 i"
  proof (intro allI impI)
    fix i assume "i < Suc k"
    show "edgeAgrees ar prog depth1 i"
    proof (cases "i = k")
      case True
      have "depth1 ! k = depth ! k" using keep Cons.prems(6) by simp
      then show ?thesis
        using S(1,4,6) opk True Cons.prems(4) S(2)
        by (auto simp: edgeAgrees_def Let_def)
    next
      case False
      with \<open>i < Suc k\<close> have ik: "i < k" by simp
      then have E: "edgeAgrees ar prog depth i" using Cons.prems(7) by simp
      have a: "0 \<le> depth ! i" "0 \<le> depth ! Suc i" using ik Cons.prems(6) by simp_all
      let ?di = "depth ! i - fst (ar (prog ! i)) + snd (ar (prog ! i))"
      have "i < length prog" using ik Cons.prems(2,3) by simp
      then have "prog ! i \<in> set prog" by simp
      then have di0: "0 \<le> ?di" using E ar by (simp add: edgeAgrees_def Let_def)
      have b: "depth1 ! i = depth ! i" "depth1 ! Suc i = depth ! Suc i"
        using a keep by simp_all
      have c: "\<And>w t p nd. prog ! i = Jump w t p nd \<Longrightarrow> depth1 ! nat t = depth ! nat t"
      proof -
        fix w t p nd assume "prog ! i = Jump w t p nd"
        then have "depth ! nat t = ?di" using E by (simp add: edgeAgrees_def Let_def)
        then have "0 \<le> depth ! nat t" using di0 by simp
        then show "depth1 ! nat t = depth ! nat t" by (rule keep)
      qed
      show ?thesis using E b c by (auto simp: edgeAgrees_def Let_def)
    qed
  qed
  have "prog = (pre @ [op]) @ rest" using Cons.prems(2) by simp
  moreover have "length (pre @ [op]) = Suc k" using Cons.prems(3) by simp
  moreover have "length depth1 = length prog + 1" using S(2) Cons.prems(4) by simp
  moreover have "depth1 ! 0 = 0" using keep[of 0] Cons.prems(5) by simp
  ultimately show ?case using Cons.IH[OF loop] nonneg edges by blast
qed

lemma depthCheck_table:
  assumes ar: "\<forall>op \<in> set prog. 0 \<le> fst (ar op) \<and> 0 \<le> snd (ar op)"
    and ok: "depthCheck ar prog endDepth = None"
  shows "\<exists>depth. depthTable ar prog = Inr depth \<and> depthsAgree ar prog depth \<and>
           depth ! length prog = endDepth"
proof -
  from ok obtain depth where t: "depthTable ar prog = Inr depth" and e: "depth ! length prog = endDepth"
    by (auto simp: depthCheck_def split: sum.splits if_splits)
  from t obtain seen where l: "depthCheckLoop ar 0 prog (initDepth prog, False) = Inr (depth, seen)"
    by (auto simp: depthTable_def split: sum.splits)
  have "depthsAgree ar prog depth"
    by (rule depthCheckLoop_inv[OF ar l, of "[]"]) (simp_all add: initDepth_def)
  with t e show ?thesis by blast
qed
section \<open>The special call in closed form\<close>

lemma pushSpecialArgs_eq:
  "pushSpecialArgs cid i args ctx = ctx\<lparr>ops := ops ctx @ specialArgOps cid i args\<rparr>"
proof (induction args arbitrary: i ctx)
  case Nil
  show ?case by simp
next
  case (Cons a args)
  show ?case by (cases a) (simp_all add: Cons.IH pushOp_def)
qed

lemma compileSpecialCall_False:
  "compileSpecialCall fnname argAst args False ctx =
     ctx\<lparr>ops := ops ctx @ specialCallOps (curCall ctx) fnname argAst args False,
         curCall := curCall ctx + 1\<rparr>"
  by (simp add: pushSpecialArgs_eq pushOp_def specialCallOps_def Let_def)

lemma compilePinningLoop_eq:
  "compilePinningLoop cid ctx =
     ctx\<lparr>ops := ops ctx @ pinningLoopOps cid (length (ops ctx)) (curCall ctx),
         curCall := curCall ctx + 1\<rparr>"
  by (simp add: pushSpecialArgs_eq pushOp_def setJumpTarget_def setTarget_def nth_append
      pinningLoopOps_def Let_def)

lemma compileGetDebugPinner_eq:
  "compileGetDebugPinner ctx =
     (if firstCall ctx \<and> flags ctx AND HasDebugPinner \<noteq> 0
      then ctx\<lparr>ops := ops ctx @ specialCallOps (curCall ctx) DebugPinnerFunctionName [] [] False
                          @ [SetDebugPinner],
               curCall := curCall ctx + 1, firstCall := False\<rparr>
      else ctx)"
  by (simp add: pushSpecialArgs_eq pushOp_def specialCallOps_def Let_def)

lemma flags_compileGetDebugPinner: "flags (compileGetDebugPinner ctx) = flags ctx"
  by (simp add: compileGetDebugPinner_eq del: compileGetDebugPinner.simps)

lemma compileSpecialCall_True:
  "compileSpecialCall fnname argAst args True ctx =
     (let g = compileGetDebugPinner ctx; cid = curCall g in
      if flags ctx AND HasDebugPinner \<noteq> 0
      then g\<lparr>ops := ops g @ specialCallOps cid fnname argAst args True
                     @ pinningLoopOps cid
                         (length (ops g) + length (specialCallOps cid fnname argAst args True))
                         (cid + 1),
             curCall := cid + 2\<rparr>
      else g\<lparr>ops := ops g @ specialCallOps cid fnname argAst args False,
             curCall := cid + 1\<rparr>)"
proof -
  define g where "g = compileGetDebugPinner ctx"
  have fl: "flags g = flags ctx" by (simp only: g_def flags_compileGetDebugPinner)
  have "compileSpecialCall fnname argAst args True ctx =
     (let ctx6 = g\<lparr>curCall := curCall g + 1,
                     ops := ops g @ specialCallOps (curCall g) fnname argAst args
                                        (flags ctx AND HasDebugPinner \<noteq> 0)\<rparr>
      in if flags ctx AND HasDebugPinner \<noteq> 0 then compilePinningLoop (curCall g) ctx6 else ctx6)"
    unfolding compileSpecialCall.simps[of fnname argAst args True ctx] g_def[symmetric]
    by (simp add: pushSpecialArgs_eq pushOp_def specialCallOps_def fl Let_def
        del: compileGetDebugPinner.simps compilePinningLoop.simps compileSpecialCall.simps)
  then have "compileSpecialCall fnname argAst args True ctx =
     (let cid = curCall g in
      if flags ctx AND HasDebugPinner \<noteq> 0
      then g\<lparr>ops := ops g @ specialCallOps cid fnname argAst args True
                     @ pinningLoopOps cid
                         (length (ops g) + length (specialCallOps cid fnname argAst args True))
                         (cid + 1),
             curCall := cid + 2\<rparr>
      else g\<lparr>ops := ops g @ specialCallOps cid fnname argAst args False,
             curCall := cid + 1\<rparr>)"
    by (simp add: compilePinningLoop_eq Let_def
        del: compileGetDebugPinner.simps compilePinningLoop.simps compileSpecialCall.simps)
  then show ?thesis by (simp only: g_def Let_def)
qed

lemmas special_eqs = compileSpecialCall_False compileSpecialCall_True compileGetDebugPinner_eq
  compilePinningLoop_eq

lemmas special_simps = compileSpecialCall.simps compileGetDebugPinner.simps
  compilePinningLoop.simps


lemma depthCheckStep_length:
  assumes "depthCheckStep ar i op (depth, seen) = Inr (depth1, seen1)"
  shows "length depth1 = length depth"
proof -
  let ?d = "depth ! i - fst (ar op) + snd (ar op)"
  from assms(1) have le: "fst (ar op) \<le> depth ! i"
    by (auto simp: depthCheckStep_eq split: if_splits)
  from assms(1) le obtain dp1 e1 where
    c1: "checkAndSet (int i + 1) ?d (depth, None) = Inr (dp1, e1)"
    by (auto simp: depthCheckStep_eq split: if_splits sum.splits)
  from assms(1) le c1 have c2: "depthCheckSwitch op i ?d seen (dp1, e1) = Inr ((depth1, None), seen1)"
    by (auto simp: depthCheckStep_eq split: if_splits sum.splits option.splits prod.splits)
  show ?thesis using checkAndSet_Inr(3)[OF c1] depthCheckSwitch_Inr(1)[OF c2] by simp
qed

lemma depthCheckLoop_seen:
  "depthCheckLoop ar k rest (depth, seen) = Inr (depth', seen') \<Longrightarrow>
   m < length rest \<Longrightarrow> rest ! m = CallInjectionComplete c True \<Longrightarrow>
   seen \<or> (\<exists>j<m. \<exists>c f a. rest ! j = CallInjectionStartSpecial c f a)"
proof (induction rest arbitrary: k depth seen m)
  case Nil
  then show ?case by simp
next
  case (Cons op rest)
  from Cons.prems(1) obtain depth1 seen1 where
    step: "depthCheckStep ar k op (depth, seen) = Inr (depth1, seen1)" and
    loop: "depthCheckLoop ar (Suc k) rest (depth1, seen1) = Inr (depth', seen')"
    by (auto split: sum.splits)
  note S = depthCheckStep_seen[OF step]
  show ?case
  proof (cases m)
    case 0
    with Cons.prems(3) have "op = CallInjectionComplete c True" by simp
    then show ?thesis using S(1) by simp
  next
    case (Suc m')
    with Cons.prems have "m' < length rest" "rest ! m' = CallInjectionComplete c True" by simp_all
    from Cons.IH[OF loop this]
    have "seen1 \<or> (\<exists>j<m'. \<exists>c f a. rest ! j = CallInjectionStartSpecial c f a)" .
    then show ?thesis
    proof
      assume seen1
      with S(2) have "seen \<or> (\<exists>c f a. op = CallInjectionStartSpecial c f a)" by simp
      then show ?thesis using Suc by auto
    next
      assume "\<exists>j<m'. \<exists>c f a. rest ! j = CallInjectionStartSpecial c f a"
      then obtain j c' f a where "j < m'" "rest ! j = CallInjectionStartSpecial c' f a" by blast
      then have "Suc j < m" "(op # rest) ! Suc j = CallInjectionStartSpecial c' f a"
        using Suc by simp_all
      then show ?thesis by blast
    qed
  qed
qed

lemma checkAndSet_no_panic:
  "0 \<le> j \<Longrightarrow> j < int (length (fst st)) \<Longrightarrow> checkAndSet j d st \<noteq> Inl e"
  by (simp add: checkAndSet_def Let_def)

lemma checkAndSet_err:
  "checkAndSet j d (depth, err) = Inr (depth1, err1) \<Longrightarrow>
   err1 = err \<or> (\<exists>a b c. err1 = Some (DepthJumpTarget a b c))"
  by (auto simp: checkAndSet_def Let_def split: if_splits)

lemma depthCheckSwitch_no_panic:
  assumes "\<And>w t p nd. op = Jump w t p nd \<Longrightarrow> 0 \<le> t \<and> t < int (length (fst st))"
  shows "depthCheckSwitch op i d seen st \<noteq> Inl e"
  using assms
  by (cases op) (auto simp: depthCheckSwitch_def checkAndSet_no_panic split: sum.splits)

lemma depthCheckStep_no_panic:
  assumes "Suc i < length depth"
    and "\<And>w t p nd. op = Jump w t p nd \<Longrightarrow> 0 \<le> t \<and> t < int (length depth)"
  shows "depthCheckStep ar i op (depth, seen) \<noteq> Inl (Panic s)"
proof
  assume a: "depthCheckStep ar i op (depth, seen) = Inl (Panic s)"
  let ?d = "depth ! i - fst (ar op) + snd (ar op)"
  from a have le: "\<not> depth ! i < fst (ar op)"
    by (auto simp: depthCheckStep_eq split: if_splits)
  have "checkAndSet (int i + 1) ?d (depth, None) \<noteq> Inl (Panic s)"
    using assms(1) by (intro checkAndSet_no_panic) simp_all
  with a le obtain dp1 e1 where
    c1: "checkAndSet (int i + 1) ?d (depth, None) = Inr (dp1, e1)"
    by (auto simp: depthCheckStep_eq split: if_splits sum.splits)
  have len: "length dp1 = length depth" by (rule checkAndSet_Inr(3)[OF c1])
  have "depthCheckSwitch op i ?d seen (dp1, e1) \<noteq> Inl (Panic s)"
    using assms(2) len by (intro depthCheckSwitch_no_panic) simp
  moreover have "e1 \<noteq> Some (Panic s)"
    using checkAndSet_err[OF c1] by auto
  then have "\<And>st2 sn e. depthCheckSwitch op i ?d seen (dp1, e1) = Inr (st2, sn) \<Longrightarrow>
        snd st2 = Some e \<Longrightarrow> e \<noteq> Panic s"
    by (cases op) (auto simp: depthCheckSwitch_def split: sum.splits if_splits dest!: checkAndSet_err)
  ultimately show False using a le c1
    by (auto simp: depthCheckStep_eq split: if_splits sum.splits option.splits prod.splits)
qed

lemma depthCheckLoop_no_panic:
  "length depth = n + 1 \<Longrightarrow> k + length rest = n \<Longrightarrow>
   (\<forall>op \<in> set rest. \<forall>w t p nd. op = Jump w t p nd \<longrightarrow> 0 \<le> t \<and> t \<le> int n) \<Longrightarrow>
   depthCheckLoop ar k rest (depth, seen) \<noteq> Inl (Panic s)"
proof (induction rest arbitrary: k depth seen)
  case Nil
  then show ?case by simp
next
  case (Cons op rest)
  have np: "depthCheckStep ar k op (depth, seen) \<noteq> Inl (Panic s)"
    using Cons.prems by (intro depthCheckStep_no_panic) auto
  show ?case
  proof (cases "depthCheckStep ar k op (depth, seen)")
    case (Inl e)
    with np show ?thesis by simp
  next
    case (Inr st1)
    obtain depth1 seen1 where st1: "st1 = (depth1, seen1)" by (cases st1)
    have "length depth1 = n + 1"
      using depthCheckStep_length[OF Inr[unfolded st1]] Cons.prems(1) by simp
    moreover have "Suc k + length rest = n" using Cons.prems(2) by simp
    ultimately have "depthCheckLoop ar (Suc k) rest (depth1, seen1) \<noteq> Inl (Panic s)"
      using Cons.prems(3) by (intro Cons.IH) auto
    then show ?thesis using Inr st1 by simp
  qed
qed

section \<open>Claims about the depth check\<close>

text \<open>
  C1. Every program that \<open>CompileAST\<close> (the body of \<open>Compile\<close> for an expression, terminal
  depth 1) or \<open>CompileSet\<close> (terminal depth 0) returns without error has a depth table
  computed by the verifier: one depth for every index \<open>0..len\<close>, each non-negative, with the
  depth of the entry 0, every fallthrough edge and every jump edge arriving with the
  depth computed after the instruction, and the depth after the last instruction equal
  to the terminal depth. \<open>Compile\<close> returns one of the two. The stack effects are counts:
  the table \<open>ar\<close> of \<open>depthCheck()\<close> methods has no negative entry for the instructions
  of the program.
\<close>

theorem depth_totality:
  assumes "\<forall>op \<in> set prog. 0 \<le> fst (ar op) \<and> 0 \<le> snd (ar op)"
  shows "(CompileAST ar L G t fl = (prog, None) \<longrightarrow>
            (\<exists>depth. depthTable ar prog = Inr depth \<and> depthsAgree ar prog depth \<and>
                      depth ! length prog = 1)) \<and>
         (CompileSet ar L G lhexpr rhexpr fl = (prog, None) \<longrightarrow>
            (\<exists>depth. depthTable ar prog = Inr depth \<and> depthsAgree ar prog depth \<and>
                      depth ! length prog = 0)) \<and>
         (Compile ar L G expr fl = (prog, None) \<longrightarrow>
            (\<exists>depth. depthTable ar prog = Inr depth \<and> depthsAgree ar prog depth \<and>
                      (depth ! length prog = 1 \<or> depth ! length prog = 0)))"
proof -
  have ast: "depthCheck ar prog 1 = None" if "CompileAST ar L G t fl = (prog, None)" for t
    using that by (auto simp: CompileAST_def Let_def split: prod.splits option.splits)
  have set: "depthCheck ar prog 0 = None"
    if "CompileSet ar L G l r fl = (prog, None)" for l r
    using that
    by (auto simp: CompileSet_def Let_def split: sum.splits prod.splits option.splits)
  have cmp: "depthCheck ar prog 1 = None \<or> depthCheck ar prog 0 = None"
    if "Compile ar L G expr fl = (prog, None)"
    using that ast set
    by (auto simp: Compile_def split: sum.splits option.splits if_splits)
  show ?thesis
    using depthCheck_table[OF assms] ast set cmp by blast
qed

theorem depth_totality_witness:
  "CompileAST sampleArity sampleLookup sampleLib
       (BinaryExpr (BasicLit INT_tok ''1'') ADD (BasicLit INT_tok ''2'')) 0 =
     ([PushConst (MakeFromLiteral ''1'' INT_tok), PushConst (MakeFromLiteral ''2'' INT_tok),
       Binary (BinaryExpr (BasicLit INT_tok ''1'') ADD (BasicLit INT_tok ''2''))], None) \<and>
   (\<exists>depth.
       depthTable sampleArity
         [PushConst (MakeFromLiteral ''1'' INT_tok), PushConst (MakeFromLiteral ''2'' INT_tok),
          Binary (BinaryExpr (BasicLit INT_tok ''1'') ADD (BasicLit INT_tok ''2''))] = Inr depth \<and>
       depthsAgree sampleArity
         [PushConst (MakeFromLiteral ''1'' INT_tok), PushConst (MakeFromLiteral ''2'' INT_tok),
          Binary (BinaryExpr (BasicLit INT_tok ''1'') ADD (BasicLit INT_tok ''2''))] depth \<and>
       depth ! 3 = 1)"
proof -
  let ?e = "BinaryExpr (BasicLit INT_tok ''1'') ADD (BasicLit INT_tok ''2'')"
  let ?p = "[PushConst (MakeFromLiteral ''1'' INT_tok), PushConst (MakeFromLiteral ''2'' INT_tok),
             Binary ?e]"
  have h: "\<forall>op \<in> set ?p. 0 \<le> fst (sampleArity op) \<and> 0 \<le> snd (sampleArity op)"
    by simp
  have c: "CompileAST sampleArity sampleLookup sampleLib ?e 0 = (?p, None)"
    by (simp add: CompileAST_def startCtx_def pushOp_def compileDebugUnpin_def
        depthCheck_def depthTable_def initDepth_def depthCheckStep_def depthCheckSwitch_def
        checkAndSet_def Let_def)
  from depth_totality[OF h, where L = sampleLookup and G = sampleLib and t = ?e and fl = 0] c
  have "\<exists>depth. depthTable sampleArity ?p = Inr depth \<and> depthsAgree sampleArity ?p depth \<and>
          depth ! length ?p = 1"
    by blast
  with h c show ?thesis by (simp add: eval_nat_numeral)
qed

text \<open>
  C7. A program in which a \<open>CallInjectionComplete\<close> with \<open>DoPinning\<close> set stands at an
  index before the first \<open>CallInjectionStartSpecial\<close> never passes the depth check,
  whatever the stack effects and the terminal depth are. When the jump targets of the
  program are indices of the program (\<open>0..len\<close>), the check returns an error; a target
  outside makes the check panic on the depth table, the one other way not to pass.
\<close>

theorem pinning_before_special_rejected:
  assumes "i < length prog"
    and "prog ! i = CallInjectionComplete cid True"
    and "\<forall>j<i. \<forall>c f a. prog ! j \<noteq> CallInjectionStartSpecial c f a"
  shows "depthCheck ar prog endDepth \<noteq> None \<and>
         ((\<forall>op \<in> set prog. \<forall>w t p nd. op = Jump w t p nd \<longrightarrow> 0 \<le> t \<and> t \<le> int (length prog))
            \<longrightarrow> (\<forall>s. depthCheck ar prog endDepth \<noteq> Some (Panic s)))"
proof
  show "depthCheck ar prog endDepth \<noteq> None"
  proof
    assume "depthCheck ar prog endDepth = None"
    then obtain depth seen where
      "depthCheckLoop ar 0 prog (initDepth prog, False) = Inr (depth, seen)"
      by (auto simp: depthCheck_def depthTable_def split: sum.splits if_splits)
    from depthCheckLoop_seen[OF this assms(1,2)] assms(3) show False by blast
  qed
next
  show "(\<forall>op \<in> set prog. \<forall>w t p nd. op = Jump w t p nd \<longrightarrow> 0 \<le> t \<and> t \<le> int (length prog))
            \<longrightarrow> (\<forall>s. depthCheck ar prog endDepth \<noteq> Some (Panic s))"
  proof (intro impI allI)
    fix s
    assume j: "\<forall>op \<in> set prog. \<forall>w t p nd. op = Jump w t p nd \<longrightarrow> 0 \<le> t \<and> t \<le> int (length prog)"
    have "depthCheckLoop ar 0 prog (initDepth prog, False) \<noteq> Inl (Panic s)"
      using j by (intro depthCheckLoop_no_panic[where n = "length prog"]) (simp_all add: initDepth_def)
    then show "depthCheck ar prog endDepth \<noteq> Some (Panic s)"
      by (auto simp: depthCheck_def depthTable_def split: sum.splits if_splits)
  qed
qed

theorem pinning_before_special_rejected_witness:
  "(1::nat) < length [PushNil, CallInjectionComplete 0 True] \<and>
   [PushNil, CallInjectionComplete 0 True] ! 1 = CallInjectionComplete 0 True \<and>
   depthCheck sampleArity [PushNil, CallInjectionComplete 0 True] 2 \<noteq> None \<and>
   depthCheck sampleArity [PushNil, CallInjectionComplete 0 True] 2
     = Some (PinningBeforeDebugPinner 1)"
proof -
  let ?p = "[PushNil, CallInjectionComplete 0 True]"
  have a: "(1::nat) < length ?p" by simp
  have b: "?p ! 1 = CallInjectionComplete 0 True" by simp
  have c: "\<forall>j<1. \<forall>c f a. ?p ! j \<noteq> CallInjectionStartSpecial c f a" by simp
  have d: "depthCheck sampleArity ?p 2 = Some (PinningBeforeDebugPinner 1)"
    by (simp add: depthCheck_def depthTable_def initDepth_def depthCheckStep_def
        depthCheckSwitch_def checkAndSet_def Let_def)
  from pinning_before_special_rejected[OF a b c, of sampleArity 2]
  have "depthCheck sampleArity ?p 2 \<noteq> None" by blast
  with a b c d show ?thesis by blast
qed

section \<open>Claims about the lowering\<close>

text \<open>
  C4 as stated: the jump of \<open>a && b\<close> has target 5. In the compiled program the target is 4:
  \<open>sop.Target = len(ctx.ops)\<close> is assigned before \<open>BoolToConst\<close> is appended, so the jump
  lands on \<open>BoolToConst\<close>, the instruction that follows \<open>Binary\<close>.
\<close>

theorem land_target_counterexample:
  "fst (CompileAST sampleArity sampleLookup sampleLib
          (BinaryExpr (Ident ''a'') LAND (Ident ''b'')) 0)
     \<noteq> [PushLocal ''a'' 0, Jump JumpIfFalse 5 False (Some (Ident ''a'')), PushLocal ''b'' 0,
         Binary (BinaryExpr (Ident ''a'') LAND (Ident ''b'')), BoolToConst] \<and>
   fst (CompileAST sampleArity sampleLookup sampleLib
          (BinaryExpr (Ident ''a'') LAND (Ident ''b'')) 0) ! 1
     = Jump JumpIfFalse 4 False (Some (Ident ''a''))"
  by (simp add: CompileAST_def startCtx_def compileIdent_def pushOp_def setJumpTarget_def
      setTarget_def compileDebugUnpin_def sampleLookup_def Let_def)

text \<open>
  C4 as amended. For locals \<open>a\<close> and \<open>b\<close>, \<open>a && b\<close> compiles to the five instructions
  \<open>PushLocal a; Jump JumpIfFalse 4; PushLocal b; Binary; BoolToConst\<close>, with the jump
  back-patched to index 4, and the program passes the depth check with terminal depth 1,
  the depths being \<open>0,1,1,2,1,1\<close>. The stack effects assumed are those of the five
  instructions: a push, a jump that leaves the depth as it is and needs at most one
  operand, \<open>(2,1)\<close> for \<open>Binary\<close> and \<open>(1,1)\<close> for \<open>BoolToConst\<close>.
\<close>

theorem land_program:
  assumes "HasLocal L a" and "HasLocal L b"
    and "ar (PushLocal a 0) = (0, 1)" and "ar (PushLocal b 0) = (0, 1)"
    and "snd (ar (Jump JumpIfFalse 4 False (Some (Ident a))))
           = fst (ar (Jump JumpIfFalse 4 False (Some (Ident a))))"
    and "fst (ar (Jump JumpIfFalse 4 False (Some (Ident a)))) \<le> 1"
    and "ar (Binary (BinaryExpr (Ident a) LAND (Ident b))) = (2, 1)"
    and "ar BoolToConst = (1, 1)"
  shows "CompileAST ar L G (BinaryExpr (Ident a) LAND (Ident b)) fl =
           ([PushLocal a 0, Jump JumpIfFalse 4 False (Some (Ident a)), PushLocal b 0,
             Binary (BinaryExpr (Ident a) LAND (Ident b)), BoolToConst], None) \<and>
         depthTable ar [PushLocal a 0, Jump JumpIfFalse 4 False (Some (Ident a)), PushLocal b 0,
             Binary (BinaryExpr (Ident a) LAND (Ident b)), BoolToConst] = Inr [0, 1, 1, 2, 1, 1]"
proof -
  let ?p = "[PushLocal a 0, Jump JumpIfFalse 4 False (Some (Ident a)), PushLocal b 0,
             Binary (BinaryExpr (Ident a) LAND (Ident b)), BoolToConst]"
  have t: "depthTable ar ?p = Inr [0, 1, 1, 2, 1, 1]"
    using assms(3-8)
    by (simp add: depthTable_def initDepth_def depthCheckStep_def depthCheckSwitch_def
        checkAndSet_def Let_def)
  have c: "compileAST L G (BinaryExpr (Ident a) LAND (Ident b)) (startCtx fl) =
             (None, (startCtx fl)\<lparr>ops := ?p\<rparr>)"
    using assms(1,2)
    by (simp add: startCtx_def compileIdent_def pushOp_def setJumpTarget_def setTarget_def Let_def)
  have "CompileAST ar L G (BinaryExpr (Ident a) LAND (Ident b)) fl = (?p, None)"
    unfolding CompileAST_def c using t
    by (simp add: compileDebugUnpin_def startCtx_def depthCheck_def)
  with t show ?thesis by simp
qed

theorem land_program_witness:
  "HasLocal sampleLookup ''a'' \<and> HasLocal sampleLookup ''b'' \<and>
   sampleArity (PushLocal ''a'' 0) = (0, 1) \<and> sampleArity (PushLocal ''b'' 0) = (0, 1) \<and>
   snd (sampleArity (Jump JumpIfFalse 4 False (Some (Ident ''a''))))
     = fst (sampleArity (Jump JumpIfFalse 4 False (Some (Ident ''a'')))) \<and>
   fst (sampleArity (Jump JumpIfFalse 4 False (Some (Ident ''a'')))) \<le> 1 \<and>
   sampleArity (Binary (BinaryExpr (Ident ''a'') LAND (Ident ''b''))) = (2, 1) \<and>
   sampleArity BoolToConst = (1, 1) \<and>
   CompileAST sampleArity sampleLookup sampleLib (BinaryExpr (Ident ''a'') LAND (Ident ''b'')) 0 =
     ([PushLocal ''a'' 0, Jump JumpIfFalse 4 False (Some (Ident ''a'')), PushLocal ''b'' 0,
       Binary (BinaryExpr (Ident ''a'') LAND (Ident ''b'')), BoolToConst], None)"
proof -
  have l: "HasLocal sampleLookup ''a''" "HasLocal sampleLookup ''b''"
    by (simp_all add: sampleLookup_def)
  from land_program[OF l, of sampleArity sampleLib 0] l show ?thesis by simp
qed


lemma copyArgsReverse_ops:
  "copyArgsReverse cid args n ctx =
     ctx\<lparr>ops := ops ctx @ map (\<lambda>i. CallInjectionCopyArg cid (int i) (Some (args ! i))) (rev [0..<n])\<rparr>"
  by (induction n arbitrary: ctx) (simp_all add: pushOp_def)

lemma compilePinningLoop_ops:
  "compilePinningLoop cid ctx =
     ctx\<lparr>ops := ops ctx @
        [Jump JumpIfPinningDone (int (length (ops ctx)) + 10) False None,
         PushPinAddress,
         CallInjectionStartSpecial (curCall ctx) ''runtime.(*Pinner).Pin''
           [Some (Ident ''debugPinner''), Some (Ident ''pinAddress'')],
         CallInjectionSetTarget (curCall ctx),
         PushDebugPinner,
         CallInjectionCopyArg (curCall ctx) 0 None,
         CallInjectionCopyArg (curCall ctx) 1 None,
         CallInjectionComplete (curCall ctx) False,
         Pop,
         Jump JumpAlways (int (length (ops ctx))) False None,
         CallInjectionComplete2 cid],
       curCall := curCall ctx + 1\<rparr>"
  by (simp add: pushOp_def setJumpTarget_def setTarget_def Let_def nth_append)

text \<open>
  C6. With \<open>HasDebugPinner\<close> set, a call \<open>fn(args)\<close> that is not a builtin call and compiles
  without error is lowered by \<open>compileFunctionCallNew\<close> with the call id \<open>curCall\<close>: after the
  pinner acquisition, the function expression and the loop over the arguments in order
  (context \<open>ctxA\<close>), the program continues with \<open>Roll n\<close>, \<open>CallInjectionStart\<close> with \<open>HasFunc\<close>
  set, \<open>Pop\<close>, \<open>CallInjectionSetTarget\<close>, the \<open>n\<close> copies \<open>CallInjectionCopyArg\<close> with
  \<open>ArgNum\<close> \<open>n-1\<close> down to \<open>0\<close>, each with the argument of that position,
  \<open>CallInjectionComplete\<close> with \<open>DoPinning\<close> set, and the eleven instructions of the pinning
  loop, which ends the lowering.
\<close>

theorem call_lowering_with_pinner:
  assumes "flags ctx AND HasDebugPinner \<noteq> 0"
    and "builtinName L fn = None"
    and "compileFunctionCall L G fn args ctx = (None, ctx')"
  shows "\<exists>ctxF ctxA.
           compileAST L G fn (compileGetDebugPinner (ctx\<lparr>curCall := curCall ctx + 1\<rparr>)) = (None, ctxF) \<and>
           compileArgsNew L G fn 0 args ctxF = (None, ctxA) \<and>
           ops ctx' = ops ctxA @
             [Roll (int (length args)),
              CallInjectionStart (curCall ctx) True (CallExpr fn args),
              Pop,
              CallInjectionSetTarget (curCall ctx)] @
             map (\<lambda>i. CallInjectionCopyArg (curCall ctx) (int i) (Some (args ! i)))
               (rev [0..<length args]) @
             [CallInjectionComplete (curCall ctx) True] @
             [Jump JumpIfPinningDone (int (length (ops ctxA) + length args + 5) + 10) False None,
              PushPinAddress,
              CallInjectionStartSpecial (curCall ctxA) ''runtime.(*Pinner).Pin''
                [Some (Ident ''debugPinner''), Some (Ident ''pinAddress'')],
              CallInjectionSetTarget (curCall ctxA),
              PushDebugPinner,
              CallInjectionCopyArg (curCall ctxA) 0 None,
              CallInjectionCopyArg (curCall ctxA) 1 None,
              CallInjectionComplete (curCall ctxA) False,
              Pop,
              Jump JumpAlways (int (length (ops ctxA) + length args + 5)) False None,
              CallInjectionComplete2 (curCall ctx)]"
proof -
  let ?ctx1 = "ctx\<lparr>curCall := curCall ctx + 1\<rparr>"
  from assms have new: "compileFunctionCallNew L G fn args (curCall ctx) ?ctx1 = (None, ctx')"
    by (simp add: Let_def split: if_splits)
  obtain eF ctxF where f: "compileAST L G fn (compileGetDebugPinner ?ctx1) = (eF, ctxF)"
    by (cases "compileAST L G fn (compileGetDebugPinner ?ctx1)")
  obtain eA ctxA where a: "compileArgsNew L G fn 0 args ctxF = (eA, ctxA)"
    by (cases "compileArgsNew L G fn 0 args ctxF")
  from new f have eF: "eF = None"
    by (auto simp: Let_def split: option.splits)
  from new f a eF have eA: "eA = None"
    by (auto simp: Let_def split: option.splits)
  from new f a eF eA have
    "ctx' = compilePinningLoop (curCall ctx)
       (pushOp (CallInjectionComplete (curCall ctx) True)
          (copyArgsReverse (curCall ctx) args (length args)
             (pushOp (CallInjectionSetTarget (curCall ctx))
                (pushOp Pop
                   (pushOp (CallInjectionStart (curCall ctx) True (CallExpr fn args))
                      (pushOp (Roll (int (length args))) ctxA))))))"
    by (simp add: Let_def del: compilePinningLoop.simps)
  then have "ops ctx' = ops ctxA @
             [Roll (int (length args)),
              CallInjectionStart (curCall ctx) True (CallExpr fn args),
              Pop,
              CallInjectionSetTarget (curCall ctx)] @
             map (\<lambda>i. CallInjectionCopyArg (curCall ctx) (int i) (Some (args ! i)))
               (rev [0..<length args]) @
             [CallInjectionComplete (curCall ctx) True] @
             [Jump JumpIfPinningDone (int (length (ops ctxA) + length args + 5) + 10) False None,
              PushPinAddress,
              CallInjectionStartSpecial (curCall ctxA) ''runtime.(*Pinner).Pin''
                [Some (Ident ''debugPinner''), Some (Ident ''pinAddress'')],
              CallInjectionSetTarget (curCall ctxA),
              PushDebugPinner,
              CallInjectionCopyArg (curCall ctxA) 0 None,
              CallInjectionCopyArg (curCall ctxA) 1 None,
              CallInjectionComplete (curCall ctxA) False,
              Pop,
              Jump JumpAlways (int (length (ops ctxA) + length args + 5)) False None,
              CallInjectionComplete2 (curCall ctx)]"
    by (simp add: compilePinningLoop_ops copyArgsReverse_ops pushOp_def
        del: compilePinningLoop.simps)
  with f a eF eA show ?thesis by blast
qed

theorem call_lowering_with_pinner_witness:
  "flags (startCtx 2) AND HasDebugPinner \<noteq> 0 \<and>
   builtinName sampleLookup (Ident ''f'') = None \<and>
   fst (compileFunctionCall sampleLookup sampleLib (Ident ''f'')
          [Ident ''a'', Ident ''b''] (startCtx 2)) = None \<and>
   drop 7 (ops (snd (compileFunctionCall sampleLookup sampleLib (Ident ''f'')
          [Ident ''a'', Ident ''b''] (startCtx 2)))) =
     [Roll 2,
      CallInjectionStart 0 True (CallExpr (Ident ''f'') [Ident ''a'', Ident ''b'']),
      Pop,
      CallInjectionSetTarget 0,
      CallInjectionCopyArg 0 1 (Some (Ident ''b'')),
      CallInjectionCopyArg 0 0 (Some (Ident ''a'')),
      CallInjectionComplete 0 True,
      Jump JumpIfPinningDone 24 False None,
      PushPinAddress,
      CallInjectionStartSpecial 2 ''runtime.(*Pinner).Pin''
        [Some (Ident ''debugPinner''), Some (Ident ''pinAddress'')],
      CallInjectionSetTarget 2,
      PushDebugPinner,
      CallInjectionCopyArg 2 0 None,
      CallInjectionCopyArg 2 1 None,
      CallInjectionComplete 2 False,
      Pop,
      Jump JumpAlways 14 False None,
      CallInjectionComplete2 0]"
proof -
  let ?args = "[Ident ''a'', Ident ''b'']"
  let ?r = "compileFunctionCall sampleLookup sampleLib (Ident ''f'') ?args (startCtx 2)"
  let ?F = "\<lparr>ops = [CallInjectionStartSpecial 1 ''runtime.debugPinner'' [],
                            CallInjectionSetTarget 1, CallInjectionComplete 1 False,
                            SetDebugPinner, PushLocal ''f'' 0],
                    allowCalls = True, curCall = 2, flags = 2, firstCall = False\<rparr>"
  have h1: "flags (startCtx 2) AND HasDebugPinner \<noteq> 0"
    by (simp add: startCtx_def HasDebugPinner_def)
  have h2: "builtinName sampleLookup (Ident ''f'') = None"
    by (simp add: builtinName_def sampleLookup_def)
  have ev: "compileAST sampleLookup sampleLib (Ident ''f'')
              (compileGetDebugPinner ((startCtx 2)\<lparr>curCall := curCall (startCtx 2) + 1\<rparr>)) =
            (None, ?F)"
    by (simp add: startCtx_def HasDebugPinner_def DebugPinnerFunctionName_def pushOp_def
        compileIdent_def sampleLookup_def)
  have ea: "compileArgsNew sampleLookup sampleLib (Ident ''f'') 0 ?args ?F =
              (None, ?F\<lparr>ops := ops ?F @ [PushLocal ''a'' 0, PushLocal ''b'' 0]\<rparr>)"
    by (simp add: pushOp_def compileIdent_def sampleLookup_def)
  have h3f: "fst ?r = None"
    by (simp add: builtinName_def startCtx_def HasDebugPinner_def DebugPinnerFunctionName_def
        pushOp_def compileIdent_def sampleLookup_def setJumpTarget_def setTarget_def)
  then have "(fst ?r, snd ?r) = (None, snd ?r)" by (simp only:)
  then have h3: "?r = (None, snd ?r)" by (simp only: prod.collapse)
  from call_lowering_with_pinner[OF h1 h2 h3] obtain ctxF ctxA where
    F: "compileAST sampleLookup sampleLib (Ident ''f'')
          (compileGetDebugPinner ((startCtx 2)\<lparr>curCall := curCall (startCtx 2) + 1\<rparr>)) = (None, ctxF)"
    and A: "compileArgsNew sampleLookup sampleLib (Ident ''f'') 0 ?args ctxF = (None, ctxA)"
    and O: "ops (snd ?r) = ops ctxA @
             [Roll (int (length ?args)),
              CallInjectionStart (curCall (startCtx 2)) True (CallExpr (Ident ''f'') ?args),
              Pop,
              CallInjectionSetTarget (curCall (startCtx 2))] @
             map (\<lambda>i. CallInjectionCopyArg (curCall (startCtx 2)) (int i) (Some (?args ! i)))
               (rev [0..<length ?args]) @
             [CallInjectionComplete (curCall (startCtx 2)) True] @
             [Jump JumpIfPinningDone (int (length (ops ctxA) + length ?args + 5) + 10) False None,
              PushPinAddress,
              CallInjectionStartSpecial (curCall ctxA) ''runtime.(*Pinner).Pin''
                [Some (Ident ''debugPinner''), Some (Ident ''pinAddress'')],
              CallInjectionSetTarget (curCall ctxA),
              PushDebugPinner,
              CallInjectionCopyArg (curCall ctxA) 0 None,
              CallInjectionCopyArg (curCall ctxA) 1 None,
              CallInjectionComplete (curCall ctxA) False,
              Pop,
              Jump JumpAlways (int (length (ops ctxA) + length ?args + 5)) False None,
              CallInjectionComplete2 (curCall (startCtx 2))]"
    by blast
  from F ev have ctxF: "ctxF = ?F" by (simp only: prod.inject)
  from A ea have ctxA: "ctxA = ?F\<lparr>ops := ops ?F @ [PushLocal ''a'' 0, PushLocal ''b'' 0]\<rparr>"
    unfolding ctxF by (simp only: prod.inject)
  have d: "drop 7 (ops (snd ?r)) =
     [Roll 2,
      CallInjectionStart 0 True (CallExpr (Ident ''f'') [Ident ''a'', Ident ''b'']),
      Pop,
      CallInjectionSetTarget 0,
      CallInjectionCopyArg 0 1 (Some (Ident ''b'')),
      CallInjectionCopyArg 0 0 (Some (Ident ''a'')),
      CallInjectionComplete 0 True,
      Jump JumpIfPinningDone 24 False None,
      PushPinAddress,
      CallInjectionStartSpecial 2 ''runtime.(*Pinner).Pin''
        [Some (Ident ''debugPinner''), Some (Ident ''pinAddress'')],
      CallInjectionSetTarget 2,
      PushDebugPinner,
      CallInjectionCopyArg 2 0 None,
      CallInjectionCopyArg 2 1 None,
      CallInjectionComplete 2 False,
      Pop,
      Jump JumpAlways 14 False None,
      CallInjectionComplete2 0]"
    unfolding O ctxA by (simp add: startCtx_def upt_rec)
  show ?thesis
    by (intro conjI) (rule h1 h2 h3f d)+
qed

section \<open>Where \<open>ConvertAllocToString\<close> is emitted\<close>

lemma convert_notin_specialArgOps:
  "\<forall>a \<in> set args. a \<noteq> Some ConvertAllocToString \<Longrightarrow>
   ConvertAllocToString \<notin> set (specialArgOps cid i args)"
  by (induction args arbitrary: i) (auto split: option.splits)

lemma convert_notin_specialCallOps:
  "\<forall>a \<in> set args. a \<noteq> Some ConvertAllocToString \<Longrightarrow>
   ConvertAllocToString \<notin> set (specialCallOps cid fnname argAst args doPinning)"
  by (simp add: specialCallOps_def convert_notin_specialArgOps)

lemma convert_notin_pinningLoopOps:
  "ConvertAllocToString \<notin> set (pinningLoopOps cid start pid)"
  by (simp add: pinningLoopOps_def)

lemma compileGetDebugPinner_ops:
  "\<exists>new cc fc. compileGetDebugPinner ctx =
       ctx\<lparr>ops := ops ctx @ new, curCall := cc, firstCall := fc\<rparr> \<and>
     ConvertAllocToString \<notin> set new"
proof (cases "firstCall ctx \<and> flags ctx AND HasDebugPinner \<noteq> 0")
  case True
  let ?new = "specialCallOps (curCall ctx) DebugPinnerFunctionName [] [] False @ [SetDebugPinner]"
  have "compileGetDebugPinner ctx =
          ctx\<lparr>ops := ops ctx @ ?new, curCall := curCall ctx + 1, firstCall := False\<rparr>"
    using True by (simp add: compileGetDebugPinner_eq del: special_simps)
  moreover have "ConvertAllocToString \<notin> set ?new"
    by (simp add: convert_notin_specialCallOps)
  ultimately show ?thesis by blast
next
  case False
  then have "compileGetDebugPinner ctx =
      ctx\<lparr>ops := ops ctx @ [], curCall := curCall ctx, firstCall := firstCall ctx\<rparr>"
    by (simp add: compileGetDebugPinner_eq del: special_simps)
  moreover have "ConvertAllocToString \<notin> set []" by simp
  ultimately show ?thesis by blast
qed

lemma compileSpecialCall_ops:
  assumes "\<forall>a \<in> set args. a \<noteq> Some ConvertAllocToString"
  shows "\<exists>new cc fc. compileSpecialCall fnname argAst args doPinning ctx =
                ctx\<lparr>ops := ops ctx @ new, curCall := cc, firstCall := fc\<rparr> \<and>
              ConvertAllocToString \<notin> set new"
proof (cases doPinning)
  case False
  let ?new = "specialCallOps (curCall ctx) fnname argAst args False"
  have "compileSpecialCall fnname argAst args doPinning ctx =
          ctx\<lparr>ops := ops ctx @ ?new, curCall := curCall ctx + 1, firstCall := firstCall ctx\<rparr>"
    using False by (simp add: compileSpecialCall_False del: special_simps)
  moreover have "ConvertAllocToString \<notin> set ?new"
    by (rule convert_notin_specialCallOps[OF assms])
  ultimately show ?thesis by blast
next
  case True
  obtain n1 cc1 fc1 where
    g: "compileGetDebugPinner ctx = ctx\<lparr>ops := ops ctx @ n1, curCall := cc1, firstCall := fc1\<rparr>"
    and c1: "ConvertAllocToString \<notin> set n1"
    using compileGetDebugPinner_ops by blast
  let ?pin = "flags ctx AND HasDebugPinner \<noteq> 0"
  let ?new = "n1 @ (if ?pin
               then specialCallOps cc1 fnname argAst args True @
                    pinningLoopOps cc1
                      (length (ops ctx) + length n1 + length (specialCallOps cc1 fnname argAst args True))
                      (cc1 + 1)
               else specialCallOps cc1 fnname argAst args False)"
  have "compileSpecialCall fnname argAst args doPinning ctx =
          ctx\<lparr>ops := ops ctx @ ?new, curCall := (if ?pin then cc1 + 2 else cc1 + 1),
              firstCall := fc1\<rparr>"
    using True by (simp add: compileSpecialCall_True g Let_def del: special_simps)
  moreover have "ConvertAllocToString \<notin> set ?new"
    using c1 convert_notin_specialCallOps[OF assms] convert_notin_pinningLoopOps by simp
  ultimately show ?thesis by blast
qed

lemma compileAllocLiteralString_ops:
  "\<exists>mid cc fc. compileAllocLiteralString ctx =
      ctx\<lparr>ops := ops ctx @
              [Jump JumpIfAllocStringChecksFail (int (length (ops ctx) + length mid + 2)) False None]
              @ mid @ [ConvertAllocToString],
          curCall := cc, firstCall := fc\<rparr> \<and>
     ConvertAllocToString \<notin> set mid"
proof -
  let ?c1 = "pushOp (Jump JumpIfAllocStringChecksFail 0 False None) ctx"
  have "\<forall>a \<in> set [Some PushLen, Some PushNil, Some (PushConst (MakeBool False))].
          a \<noteq> Some ConvertAllocToString" by simp
  from compileSpecialCall_ops[OF this, of "''runtime.mallocgc''"
      "[Some (BasicLit INT_tok ''0''), Some (Ident ''nil''), Some (Ident ''false'')]" True ?c1]
  obtain mid cc fc where
    s: "compileSpecialCall ''runtime.mallocgc''
          [Some (BasicLit INT_tok ''0''), Some (Ident ''nil''), Some (Ident ''false'')]
          [Some PushLen, Some PushNil, Some (PushConst (MakeBool False))] True ?c1 =
        ?c1\<lparr>ops := ops ?c1 @ mid, curCall := cc, firstCall := fc\<rparr>"
    and c: "ConvertAllocToString \<notin> set mid" by blast
  have "compileAllocLiteralString ctx =
      ctx\<lparr>ops := ops ctx @
              [Jump JumpIfAllocStringChecksFail (int (length (ops ctx) + length mid + 2)) False None]
              @ mid @ [ConvertAllocToString],
          curCall := cc, firstCall := fc\<rparr>"
    unfolding compileAllocLiteralString_def Let_def s
    by (simp add: pushOp_def setJumpTarget_def setTarget_def nth_append del: special_simps)
  with c show ?thesis by blast
qed

lemma compileAST_isStringLiteral:
  "isStringLiteral t \<Longrightarrow>
   \<exists>lit. compileAST L G t ctx = (None, ctx\<lparr>ops := ops ctx @ lit\<rparr>) \<and>
         ConvertAllocToString \<notin> set lit"
proof (induction t arbitrary: ctx rule: isStringLiteral.induct)
  case (1 kind v)
  have "compileAST L G (BasicLit kind v) ctx =
          (None, ctx\<lparr>ops := ops ctx @ [PushConst (MakeFromLiteral v kind)]\<rparr>)"
    by (simp add: pushOp_def)
  moreover have "ConvertAllocToString \<notin> set [PushConst (MakeFromLiteral v kind)]" by simp
  ultimately show ?case by blast
next
  case (2 x op y)
  then have op: "op = ADD" and sx: "isStringLiteral x" and sy: "isStringLiteral y"
    by (simp_all split: if_splits)
  from "2.IH"(1)[OF op sx, of ctx] obtain l1 where
    x: "compileAST L G x ctx = (None, ctx\<lparr>ops := ops ctx @ l1\<rparr>)"
    and c1: "ConvertAllocToString \<notin> set l1" by blast
  from "2.IH"(2)[OF op sy, of "ctx\<lparr>ops := ops ctx @ l1\<rparr>"] obtain l2 where
    y: "compileAST L G y (ctx\<lparr>ops := ops ctx @ l1\<rparr>) = (None, ctx\<lparr>ops := ops ctx @ l1 @ l2\<rparr>)"
    and c2: "ConvertAllocToString \<notin> set l2" by auto
  have "compileAST L G (BinaryExpr x op y) ctx =
          (None, ctx\<lparr>ops := ops ctx @ (l1 @ l2 @ [Binary (BinaryExpr x op y)])\<rparr>)"
    using op by (simp add: x y pushOp_def)
  moreover have "ConvertAllocToString \<notin> set (l1 @ l2 @ [Binary (BinaryExpr x op y)])"
    using c1 c2 by simp
  ultimately show ?case by blast
next
  case (3 x)
  then show ?case by simp
qed simp_all

lemma compileArgsOld_literal:
  assumes "isStringLiteral arg"
  shows "\<exists>lit mid ctx1.
           compileArgsOld L G cid fn i [arg] ctx = (None, ctx1) \<and>
           ops ctx1 = ops ctx @ lit @
             [Jump JumpIfAllocStringChecksFail
                (int (length (ops ctx) + length lit + length mid + 2)) False None] @
             mid @ [ConvertAllocToString, CallInjectionCopyArg cid i (Some arg)] \<and>
           ConvertAllocToString \<notin> set lit \<and> ConvertAllocToString \<notin> set mid"
proof -
  from compileAST_isStringLiteral[OF assms, of L G ctx] obtain lit where
    l: "compileAST L G arg ctx = (None, ctx\<lparr>ops := ops ctx @ lit\<rparr>)"
    and cl: "ConvertAllocToString \<notin> set lit" by blast
  let ?c = "ctx\<lparr>ops := ops ctx @ lit\<rparr>"
  from compileAllocLiteralString_ops[of ?c] obtain mid cc fc where
    a: "compileAllocLiteralString ?c =
      ?c\<lparr>ops := ops ?c @
              [Jump JumpIfAllocStringChecksFail (int (length (ops ?c) + length mid + 2)) False None]
              @ mid @ [ConvertAllocToString],
          curCall := cc, firstCall := fc\<rparr>"
    and cm: "ConvertAllocToString \<notin> set mid" by blast
  let ?c1 = "pushOp (CallInjectionCopyArg cid i (Some arg)) (compileAllocLiteralString ?c)"
  have r: "compileArgsOld L G cid fn i [arg] ctx = (None, ?c1)"
    using assms by (simp add: l)
  have "ops ?c1 = ops ctx @ lit @
             [Jump JumpIfAllocStringChecksFail
                (int (length (ops ctx) + length lit + length mid + 2)) False None] @
             mid @ [ConvertAllocToString, CallInjectionCopyArg cid i (Some arg)]"
    unfolding a by (simp add: pushOp_def)
  with r cl cm show ?thesis by blast
qed

lemma compileArgsNew_literal:
  assumes "isStringLiteral arg"
  shows "\<exists>lit mid ctx1.
           compileArgsNew L G fn i [arg] ctx = (None, ctx1) \<and>
           ops ctx1 = ops ctx @ lit @
             [Jump JumpIfAllocStringChecksFail
                (int (length (ops ctx) + length lit + length mid + 2)) False None] @
             mid @ [ConvertAllocToString] \<and>
           ConvertAllocToString \<notin> set lit \<and> ConvertAllocToString \<notin> set mid"
proof -
  from compileAST_isStringLiteral[OF assms, of L G ctx] obtain lit where
    l: "compileAST L G arg ctx = (None, ctx\<lparr>ops := ops ctx @ lit\<rparr>)"
    and cl: "ConvertAllocToString \<notin> set lit" by blast
  let ?c = "ctx\<lparr>ops := ops ctx @ lit\<rparr>"
  from compileAllocLiteralString_ops[of ?c] obtain mid cc fc where
    a: "compileAllocLiteralString ?c =
      ?c\<lparr>ops := ops ?c @
              [Jump JumpIfAllocStringChecksFail (int (length (ops ?c) + length mid + 2)) False None]
              @ mid @ [ConvertAllocToString],
          curCall := cc, firstCall := fc\<rparr>"
    and cm: "ConvertAllocToString \<notin> set mid" by blast
  have r: "compileArgsNew L G fn i [arg] ctx = (None, compileAllocLiteralString ?c)"
    using assms by (simp add: l Let_def)
  have "ops (compileAllocLiteralString ?c) = ops ctx @ lit @
             [Jump JumpIfAllocStringChecksFail
                (int (length (ops ctx) + length lit + length mid + 2)) False None] @
             mid @ [ConvertAllocToString]"
    unfolding a by simp
  with r cl cm show ?thesis by blast
qed

lemma setTarget_Convert [simp]:
  "(setTarget t op = ConvertAllocToString) = (op = ConvertAllocToString)"
  "(ConvertAllocToString = setTarget t op) = (op = ConvertAllocToString)"
  by (cases op; simp add: setTarget_def)+

lemma convert_notin_setJumpTarget:
  assumes "ConvertAllocToString \<notin> set (ops ctx)"
  shows "ConvertAllocToString \<notin> set (ops (setJumpTarget i t ctx))"
proof (cases "i < length (ops ctx)")
  case True
  then have "ops ctx ! i \<in> set (ops ctx)" by simp
  with assms have "ops ctx ! i \<noteq> ConvertAllocToString" by auto
  then have a: "setTarget t (ops ctx ! i) \<noteq> ConvertAllocToString" by simp
  have b: "set (ops (setJumpTarget i t ctx))
                   \<subseteq> insert (setTarget t (ops ctx ! i)) (set (ops ctx))"
    by (simp add: setJumpTarget_def set_update_subset_insert)
  show ?thesis
  proof
    assume "ConvertAllocToString \<in> set (ops (setJumpTarget i t ctx))"
    with b have "ConvertAllocToString \<in> insert (setTarget t (ops ctx ! i)) (set (ops ctx))"
      by (rule subsetD)
    with a assms show False by simp
  qed
next
  case False
  then show ?thesis using assms by (simp add: setJumpTarget_def list_update_beyond)
qed

lemma convert_in_pushOp [simp]:
  "(ConvertAllocToString \<in> set (ops (pushOp op ctx))) =
     (ConvertAllocToString \<in> set (ops ctx) \<or> op = ConvertAllocToString)"
  by (auto simp: pushOp_def)

lemma convert_notin_pushOps:
  "ConvertAllocToString \<notin> set os \<Longrightarrow> ConvertAllocToString \<notin> set (ops ctx) \<Longrightarrow>
   ConvertAllocToString \<notin> set (ops (pushOps os ctx))"
  unfolding pushOps_def by (induction os arbitrary: ctx) auto


lemma selectorCase_ops:
  "selectorCase L G x sel = SelOps os \<Longrightarrow> ConvertAllocToString \<notin> set os"
  by (auto simp: selectorCase_def split: expr.splits if_splits list.splits sum.splits)

lemma compileIdent_ops:
  "compileIdent L name ctx = (e, ctx1) \<Longrightarrow> ConvertAllocToString \<notin> set (ops ctx) \<Longrightarrow>
   ConvertAllocToString \<notin> set (ops ctx1)"
  by (auto simp: compileIdent_def split: if_splits option.splits)

lemma compileAST_noCalls:
  "compileAST L G t ctx = (e, ctx1) \<Longrightarrow> noCalls t \<Longrightarrow>
   ConvertAllocToString \<notin> set (ops ctx) \<Longrightarrow> ConvertAllocToString \<notin> set (ops ctx1)"
proof (induction t arbitrary: ctx e ctx1 rule: noCalls.induct)
  case (4 x sel)
  note ih4 = "4.IH"
  show ?case
  proof (cases "selectorCase L G x sel")
    case (SelOps os)
    with "4.prems" show ?thesis
      by (auto simp: selectorCase_ops convert_notin_pushOps)
  next
    case (SelError err)
    with "4.prems" show ?thesis by auto
  next
    case SelUnary
    with "4.prems" show ?thesis
      by (auto split: prod.splits option.splits dest: ih4)
  qed
next
  case (5 x idx)
  note ih5 = "5.IH"
  from 5 show ?case
    by (auto simp: Let_def split: prod.splits option.splits dest: ih5)
next
  case (6 x lo hi slice3)
  note ih6 = "6.IH"
  from 6 show ?case
    by (auto simp: Let_def split: prod.splits option.splits if_splits dest: ih6)
next
  case (7 x ty)
  note ih7 = "7.IH"
  from 7 show ?case
    by (auto split: prod.splits option.splits if_splits sum.splits dest: ih7)
next
  case (8 x)
  note ih8 = "8.IH"
  from 8 show ?case by (auto split: prod.splits option.splits dest: ih8)
next
  case (9 op x)
  note ih9 = "9.IH"
  from 9 show ?case by (auto split: prod.splits option.splits if_splits dest: ih9)
next
  case (10 x op y)
  note ih10 = "10.IH"
  from 10 show ?case
    by (auto simp: Let_def convert_notin_setJumpTarget
        split: prod.splits option.splits if_splits dest: ih10)
qed (auto dest: compileIdent_ops)

lemma isStringLiteral_noCalls: "isStringLiteral t \<Longrightarrow> noCalls t"
  by (induction t rule: isStringLiteral.induct) (simp_all split: if_splits)

lemma compileDebugUnpin_noConvert:
  assumes "ConvertAllocToString \<notin> set (ops ctx)"
  shows "ConvertAllocToString \<notin> set (ops (compileDebugUnpin ctx))"
proof (cases "\<not> firstCall ctx \<and> flags ctx AND HasDebugPinner \<noteq> 0")
  case True
  have "\<forall>a \<in> set [Some PushDebugPinner]. a \<noteq> Some ConvertAllocToString" by simp
  from compileSpecialCall_ops[OF this, of "''runtime.(*Pinner).Unpin''"
      "[Some (Ident ''debugPinner'')]" False ctx]
  obtain new cc fc where
    s: "compileSpecialCall ''runtime.(*Pinner).Unpin'' [Some (Ident ''debugPinner'')]
          [Some PushDebugPinner] False ctx =
        ctx\<lparr>ops := ops ctx @ new, curCall := cc, firstCall := fc\<rparr>"
    and c: "ConvertAllocToString \<notin> set new" by blast
  show ?thesis
    using True assms c unfolding compileDebugUnpin_def s by simp
next
  case False
  then show ?thesis using assms by (auto simp: compileDebugUnpin_def)
qed

section \<open>Claims about string literals and the pinner\<close>

text \<open>
  C8 as stated: a string literal in a non-call context compiles without
  \<open>ConvertAllocToString\<close>. The right-hand side of an assignment is such a context, and
  \<open>CompileSet\<close> applies the string allocation to it: the program for \<open>x = "hi"\<close> passes the
  depth check and contains \<open>ConvertAllocToString\<close>.
\<close>

theorem assignment_literal_counterexample:
  "ConvertAllocToString \<in> set (fst (CompileSet sampleArity sampleLookup sampleLib ''x'' hiLit 0)) \<and>
   snd (CompileSet sampleArity sampleLookup sampleLib ''x'' hiLit 0) = None"
proof -
  have "CompileSet sampleArity sampleLookup sampleLib ''x'' hiLit 0 =
          ([PushConst (MakeFromLiteral hiLit STRING),
            Jump JumpIfAllocStringChecksFail 12 False None,
            CallInjectionStartSpecial 0 ''runtime.mallocgc''
              [Some (BasicLit INT_tok ''0''), Some (Ident ''nil''), Some (Ident ''false'')],
            CallInjectionSetTarget 0,
            PushLen, CallInjectionCopyArg 0 0 None,
            PushNil, CallInjectionCopyArg 0 1 None,
            PushConst (MakeBool False), CallInjectionCopyArg 0 2 None,
            CallInjectionComplete 0 False,
            ConvertAllocToString,
            PushLocal ''x'' 0,
            SetValue (Some (Ident ''x'')) (BasicLit STRING hiLit)], None)"
    by (simp add: CompileSet_def sampleLib_def sampleLookup_def startCtx_def pushOp_def
        compileIdent_def compileAllocLiteralString_def setJumpTarget_def setTarget_def
        special_eqs specialCallOps_def HasDebugPinner_def hiLit_def
        depthCheck_def depthTable_def initDepth_def depthCheckStep_def depthCheckSwitch_def
        checkAndSet_def
        del: special_simps)
  then show ?thesis by simp
qed

text \<open>
  C8 as amended. An expression without a call and without a composite literal (a string
  literal on its own is one) compiles, as an expression, to a program without
  \<open>ConvertAllocToString\<close>. In the argument loops of an injected call, of both lowerings, a
  string-literal argument is followed by exactly one \<open>ConvertAllocToString\<close>: the
  instructions appended for it are those of the literal, a
  \<open>Jump JumpIfAllocStringChecksFail\<close>, the special call to \<open>runtime.mallocgc\<close>, and
  \<open>ConvertAllocToString\<close> (then the copy of the argument in the legacy lowering), with no
  other \<open>ConvertAllocToString\<close> among them and the target of the jump the index right after
  \<open>ConvertAllocToString\<close>. The right-hand side of an assignment gets the same allocation;
  the arguments of a builtin call and of a type cast get none.
\<close>

theorem string_literal_allocation:
  assumes "noCalls t" and "isStringLiteral arg"
  shows "ConvertAllocToString \<notin> set (fst (CompileAST ar L G t fl)) \<and>
         (\<exists>lit mid ctx1.
             compileArgsOld L G cid fn i [arg] ctx = (None, ctx1) \<and>
             ops ctx1 = ops ctx @ lit @
               [Jump JumpIfAllocStringChecksFail
                  (int (length (ops ctx) + length lit + length mid + 2)) False None] @
               mid @ [ConvertAllocToString, CallInjectionCopyArg cid i (Some arg)] \<and>
             ConvertAllocToString \<notin> set lit \<and> ConvertAllocToString \<notin> set mid) \<and>
         (\<exists>lit mid ctx1.
             compileArgsNew L G fn i [arg] ctx = (None, ctx1) \<and>
             ops ctx1 = ops ctx @ lit @
               [Jump JumpIfAllocStringChecksFail
                  (int (length (ops ctx) + length lit + length mid + 2)) False None] @
               mid @ [ConvertAllocToString] \<and>
             ConvertAllocToString \<notin> set lit \<and> ConvertAllocToString \<notin> set mid)"
proof (intro conjI)
  show "ConvertAllocToString \<notin> set (fst (CompileAST ar L G t fl))"
  proof (cases "compileAST L G t (startCtx fl)")
    case (Pair e ctx1)
    have "ConvertAllocToString \<notin> set (ops (startCtx fl))" by (simp add: startCtx_def)
    from compileAST_noCalls[OF Pair assms(1) this]
    have "ConvertAllocToString \<notin> set (ops (compileDebugUnpin ctx1))"
      by (rule compileDebugUnpin_noConvert)
    then show ?thesis
      using Pair by (cases e) (simp_all add: CompileAST_def Let_def)
  qed
next
  show "\<exists>lit mid ctx1.
             compileArgsOld L G cid fn i [arg] ctx = (None, ctx1) \<and>
             ops ctx1 = ops ctx @ lit @
               [Jump JumpIfAllocStringChecksFail
                  (int (length (ops ctx) + length lit + length mid + 2)) False None] @
               mid @ [ConvertAllocToString, CallInjectionCopyArg cid i (Some arg)] \<and>
             ConvertAllocToString \<notin> set lit \<and> ConvertAllocToString \<notin> set mid"
    by (rule compileArgsOld_literal[OF assms(2)])
next
  show "\<exists>lit mid ctx1.
             compileArgsNew L G fn i [arg] ctx = (None, ctx1) \<and>
             ops ctx1 = ops ctx @ lit @
               [Jump JumpIfAllocStringChecksFail
                  (int (length (ops ctx) + length lit + length mid + 2)) False None] @
               mid @ [ConvertAllocToString] \<and>
             ConvertAllocToString \<notin> set lit \<and> ConvertAllocToString \<notin> set mid"
    by (rule compileArgsNew_literal[OF assms(2)])
qed

theorem string_literal_allocation_witness:
  "noCalls (BasicLit STRING hiLit) \<and> isStringLiteral (BasicLit STRING hiLit) \<and>
   ConvertAllocToString \<notin>
     set (fst (CompileAST sampleArity sampleLookup sampleLib (BasicLit STRING hiLit) 0)) \<and>
   fst (CompileAST sampleArity sampleLookup sampleLib (BasicLit STRING hiLit) 0) =
     [PushConst (MakeFromLiteral hiLit STRING)]"
proof -
  have a: "noCalls (BasicLit STRING hiLit)" by simp
  have b: "isStringLiteral (BasicLit STRING hiLit)" by simp
  from string_literal_allocation[OF a b, of sampleArity sampleLookup sampleLib 0]
  have c: "ConvertAllocToString \<notin>
     set (fst (CompileAST sampleArity sampleLookup sampleLib (BasicLit STRING hiLit) 0))"
    by blast
  have d: "fst (CompileAST sampleArity sampleLookup sampleLib (BasicLit STRING hiLit) 0) =
     [PushConst (MakeFromLiteral hiLit STRING)]"
    by (simp add: CompileAST_def startCtx_def pushOp_def compileDebugUnpin_def)
  show ?thesis by (intro conjI) (rule a b c d)+
qed

text \<open>
  C5. The claim holds where the release is compiled and fails in \<open>CompileSet\<close>, which
  never calls \<open>compileDebugUnpin\<close>. For the assignment \<open>x = f()\<close> with \<open>HasDebugPinner\<close>,
  \<open>CompileSet\<close> returns without error a program that acquires the pinner and does not
  end with the release; \<open>CompileAST\<close> on the same call \<open>f()\<close> ends with the release.
\<close>

theorem compileSet_no_release:
  "snd (CompileSet sampleArity sampleLookup sampleLib ''x'' ''f()'' 2) = None \<and>
   hasAcquisition (fst (CompileSet sampleArity sampleLookup sampleLib ''x'' ''f()'' 2)) \<and>
   \<not> endsWithRelease (fst (CompileSet sampleArity sampleLookup sampleLib ''x'' ''f()'' 2)) \<and>
   last (fst (CompileSet sampleArity sampleLookup sampleLib ''x'' ''f()'' 2))
     = SetValue (Some (Ident ''x'')) (CallExpr (Ident ''f'') []) \<and>
   snd (CompileAST sampleArity sampleLookup sampleLib (CallExpr (Ident ''f'') []) 2) = None \<and>
   hasAcquisition (fst (CompileAST sampleArity sampleLookup sampleLib (CallExpr (Ident ''f'') []) 2)) \<and>
   endsWithRelease (fst (CompileAST sampleArity sampleLookup sampleLib (CallExpr (Ident ''f'') []) 2))"
proof -
  let ?body = "[CallInjectionStartSpecial 1 ''runtime.debugPinner'' [],
      CallInjectionSetTarget 1, CallInjectionComplete 1 False, SetDebugPinner,
      PushLocal ''f'' 0, Roll 0,
      CallInjectionStart 0 True (CallExpr (Ident ''f'') []), Pop,
      CallInjectionSetTarget 0, CallInjectionComplete 0 True,
      Jump JumpIfPinningDone 20 False None, PushPinAddress,
      CallInjectionStartSpecial 2 ''runtime.(*Pinner).Pin''
        [Some (Ident ''debugPinner''), Some (Ident ''pinAddress'')],
      CallInjectionSetTarget 2, PushDebugPinner, CallInjectionCopyArg 2 0 None,
      CallInjectionCopyArg 2 1 None, CallInjectionComplete 2 False, Pop,
      Jump JumpAlways 10 False None, CallInjectionComplete2 0]"
  let ?set = "?body @ [PushLocal ''x'' 0, SetValue (Some (Ident ''x'')) (CallExpr (Ident ''f'') [])]"
  let ?ast = "?body @ releaseOps 3"
  have s: "CompileSet sampleArity sampleLookup sampleLib ''x'' ''f()'' 2 = (?set, None)"
    by (simp add: CompileSet_def sampleLib_def sampleLookup_def startCtx_def pushOp_def
        compileIdent_def builtinName_def callCase_def
        special_eqs specialCallOps_def pinningLoopOps_def HasDebugPinner_def
        DebugPinnerFunctionName_def hiLit_def
        depthCheck_def depthTable_def initDepth_def depthCheckStep_def depthCheckSwitch_def
        checkAndSet_def
        del: special_simps)
  have a: "CompileAST sampleArity sampleLookup sampleLib (CallExpr (Ident ''f'') []) 2 = (?ast, None)"
    by (simp add: CompileAST_def sampleLookup_def startCtx_def pushOp_def
        compileIdent_def builtinName_def callCase_def compileDebugUnpin_def releaseOps_def
        special_eqs specialCallOps_def pinningLoopOps_def HasDebugPinner_def
        DebugPinnerFunctionName_def
        depthCheck_def depthTable_def initDepth_def depthCheckStep_def depthCheckSwitch_def
        checkAndSet_def
        del: special_simps)
  have acq: "acquisitionAt (?body @ rest) 0" for rest
    by (simp add: acquisitionAt_def DebugPinnerFunctionName_def)
  have h: "hasAcquisition (?body @ rest)" for rest
    unfolding hasAcquisition_def list_ex_iff using acq[of rest] by (intro bexI[of _ 0]) simp_all
  have r1: "\<not> endsWithRelease ?set"
    by (simp add: endsWithRelease_def releaseOps_def)
  have r2: "endsWithRelease ?ast"
    by (simp add: endsWithRelease_def releaseOps_def)
  show ?thesis
    unfolding s a using h[of "[PushLocal ''x'' 0, SetValue (Some (Ident ''x'')) (CallExpr (Ident ''f'') [])]"]
      h[of "releaseOps 3"] r1 r2
    by simp
qed

end
